theory Spec2Isabelle
  imports Main "HOL-Library.Sublist"
begin

section \<open>Python values used by the comparison tool\<close>

text \<open>
  The repository holds two variants of one command-line tool:
  \<^verbatim>\<open>configdb_compare_original.py\<close> (called the original variant below) and
  \<^verbatim>\<open>configuration_database_compare.py\<close> (the refactored variant). Functions that are
  textually the same in both files are embedded once; functions that differ are embedded
  twice, the original one with the suffix \<open>_original\<close>.

  Strings are \<open>string\<close>; a character stands for the code point of the same number, so
  the strings of the model are those whose code points are below 256. Exceptions are
  values of \<open>exn\<close>, and a function that can raise returns \<open>exn + 'a\<close> with \<open>Inl\<close> for the
  exception; a method that also changes the object returns the pair of that result and
  the object as it is when the method is left.
\<close>

datatype exn = IndexError | KeyError | TypeError | UnboundLocalError | OperationalError
  | DatabaseError | OSError | SystemExit nat

text \<open>\<^verbatim>\<open>except Exception\<close> catches every exception of the model but \<^verbatim>\<open>SystemExit\<close>.\<close>

fun is_Exception :: "exn \<Rightarrow> bool" where
  "is_Exception (SystemExit code) = False"
| "is_Exception e = True"

text \<open>
  A \<^verbatim>\<open>dict\<close> with string keys and values is an association list with one pair per key,
  in insertion order. \<^verbatim>\<open>d[k] = v\<close> keeps the position of a key that is already present
  and appends a new key at the end, as Python does.
\<close>

type_synonym pydict = "(string \<times> string) list"

primrec setitem :: "string \<Rightarrow> string \<Rightarrow> pydict \<Rightarrow> pydict" where
  "setitem k v [] = [(k, v)]"
| "setitem k v (p # ps) = (if fst p = k then (k, v) # ps else p # setitem k v ps)"

definition keys :: "pydict \<Rightarrow> string list" where
  "keys d = map fst d"

definition has_key :: "string \<Rightarrow> pydict \<Rightarrow> bool" where
  "has_key k d = (k \<in> set (keys d))"

definition wf_dict :: "pydict \<Rightarrow> bool" where
  "wf_dict d = distinct (keys d)"

text \<open>
  The arguments of \<^verbatim>\<open>compare_database_to_scripts\<close> are not typed in the source, and the
  refactored variant tests them with \<^verbatim>\<open>isinstance(_, dict)\<close>. \<open>pyobj\<close> holds the dictionaries
  and a few kinds of values that are not dictionaries; \<open>py_iter\<close>, \<open>py_contains\<close> and
  \<open>py_getitem\<close> are \<^verbatim>\<open>for k in obj\<close>, \<^verbatim>\<open>k in obj\<close> and \<^verbatim>\<open>obj[k]\<close> for a string \<^verbatim>\<open>k\<close>.
\<close>

datatype pyobj = Dict pydict | NoneObj | IntObj int | StrObj string | ListObj "string list"

fun isinstance_dict :: "pyobj \<Rightarrow> bool" where
  "isinstance_dict (Dict d) = True"
| "isinstance_dict _ = False"

fun py_iter :: "pyobj \<Rightarrow> exn + string list" where
  "py_iter (Dict d) = Inr (keys d)"
| "py_iter (StrObj s) = Inr (map (\<lambda>c. [c]) s)"
| "py_iter (ListObj xs) = Inr xs"
| "py_iter NoneObj = Inl TypeError"
| "py_iter (IntObj i) = Inl TypeError"

fun py_contains :: "string \<Rightarrow> pyobj \<Rightarrow> exn + bool" where
  "py_contains k (Dict d) = Inr (has_key k d)"
| "py_contains k (StrObj s) = Inr (sublist k s)"
| "py_contains k (ListObj xs) = Inr (k \<in> set xs)"
| "py_contains k NoneObj = Inl TypeError"
| "py_contains k (IntObj i) = Inl TypeError"

fun py_getitem :: "pyobj \<Rightarrow> string \<Rightarrow> exn + string" where
  "py_getitem (Dict d) k = (case map_of d k of None \<Rightarrow> Inl KeyError | Some v \<Rightarrow> Inr v)"
| "py_getitem obj k = Inl TypeError"

section \<open>The \<^verbatim>\<open>MySQLCompare\<close> object and the process around it\<close>

text \<open>
  The fields of the object that the methods read or write, together with three pieces of
  process state: whether the database connection is open, the ERROR records written to the
  log (the text before a formatted exception, and the exception), and what was printed.
  INFO and WARNING records are not part of the model: no method reads them back.
\<close>

type_synonym entry = "string \<times> string \<times> string \<times> string"

datatype out_item = Line string | Table "entry list"

type_synonym log_record = "string \<times> exn option"

record MySQLCompare =
  is_print_table_diff :: bool
  is_print_stored_procs :: bool
  client_specific_keyword :: "string option"
  comparison_direction :: string
  TOTAL_WARNINGS :: int
  database_warnings :: int
  connection_open :: bool
  error_log :: "log_record list"
  printed :: "out_item list"

definition logger_error :: "string \<Rightarrow> exn option \<Rightarrow> MySQLCompare \<Rightarrow> MySQLCompare" where
  "logger_error m e s = s\<lparr>error_log := error_log s @ [(m, e)]\<rparr>"

definition py_print :: "out_item \<Rightarrow> MySQLCompare \<Rightarrow> MySQLCompare" where
  "py_print x s = s\<lparr>printed := printed s @ [x]\<rparr>"

section \<open>\<^verbatim>\<open>compare_database_to_scripts\<close>\<close>

text \<open>
  The loop over \<^verbatim>\<open>script_keys\<close>, the same in both variants. It returns the list
  \<^verbatim>\<open>differences\<close> as it stands when the loop ends, and the exception that ended it, if any.
  The \<^verbatim>\<open>BeautifulTable\<close> receives the same rows as \<^verbatim>\<open>differences\<close>; building it and
  appending to it are taken to succeed.
\<close>

fun compare_loop :: "pyobj \<Rightarrow> pyobj \<Rightarrow> string list \<Rightarrow> entry list \<Rightarrow> entry list \<times> exn option" where
  "compare_loop database_keys script_keys [] differences = (differences, None)"
| "compare_loop database_keys script_keys (config_name # rest) differences =
     (case py_contains config_name database_keys of
        Inl e \<Rightarrow> (differences, Some e)
      | Inr True \<Rightarrow>
          (case py_getitem script_keys config_name of
             Inl e \<Rightarrow> (differences, Some e)
           | Inr config_value_script \<Rightarrow>
               (case py_getitem database_keys config_name of
                  Inl e \<Rightarrow> (differences, Some e)
                | Inr config_value_database \<Rightarrow>
                    if config_value_script \<noteq> config_value_database
                    then compare_loop database_keys script_keys rest
                           (differences @
                              [(''CHANGE'', config_name, config_value_database, config_value_script)])
                    else compare_loop database_keys script_keys rest differences))
      | Inr False \<Rightarrow>
          (case py_getitem script_keys config_name of
             Inl e \<Rightarrow> (differences, Some e)
           | Inr config_value_script \<Rightarrow>
               compare_loop database_keys script_keys rest
                 (differences @ [(''MISSING'', config_name, ''N/A'', config_value_script)])))"

text \<open>The original variant: no check of the arguments, and an exception leaves the method.\<close>

definition compare_database_to_scripts_original ::
  "MySQLCompare \<Rightarrow> pyobj \<Rightarrow> pyobj \<Rightarrow> (exn + entry list) \<times> MySQLCompare" where
  "compare_database_to_scripts_original s database_keys script_keys =
     (case py_iter script_keys of
        Inl e \<Rightarrow> (Inl e, s)
      | Inr ks \<Rightarrow>
          (case compare_loop database_keys script_keys ks [] of
             (differences, Some e) \<Rightarrow> (Inl e, s)
           | (differences, None) \<Rightarrow>
               (Inr differences,
                if is_print_table_diff s then py_print (Table differences) s else s)))"

text \<open>
  The refactored variant: the arguments are checked first, and an exception inside the
  loop is logged, after which the method goes on with the differences found so far.
\<close>

definition compare_database_to_scripts ::
  "MySQLCompare \<Rightarrow> pyobj \<Rightarrow> pyobj \<Rightarrow> entry list \<times> MySQLCompare" where
  "compare_database_to_scripts s database_keys script_keys =
     (if \<not> isinstance_dict database_keys \<or> \<not> isinstance_dict script_keys
      then ([], logger_error ''Input arguments must be dictionaries.'' None s)
      else
        let (differences, s1) =
              (case py_iter script_keys of
                 Inl e \<Rightarrow> ([], logger_error ''Error comparing keys: '' (Some e) s)
               | Inr ks \<Rightarrow>
                   (case compare_loop database_keys script_keys ks [] of
                      (differences, Some e) \<Rightarrow>
                        (differences, logger_error ''Error comparing keys: '' (Some e) s)
                    | (differences, None) \<Rightarrow> (differences, s)))
        in (differences, if is_print_table_diff s1 then py_print (Table differences) s1 else s1))"

section \<open>String methods\<close>

text \<open>
  \<open>split_once c s\<close> is \<^verbatim>\<open>s.split(c, 1)\<close> and \<open>split c s\<close> is \<^verbatim>\<open>s.split(c)\<close> for a separator
  of one character; \<open>list_index xs i\<close> is \<^verbatim>\<open>xs[i]\<close> for \<^verbatim>\<open>i >= 0\<close>; \<open>remove_char c s\<close> is
  \<^verbatim>\<open>s.replace(c, '')\<close>; \<open>strip\<close> is \<^verbatim>\<open>s.strip()\<close>, which removes the characters that
  \<^verbatim>\<open>str.isspace\<close> accepts from both ends: below 256 these are the code points 9 to 13,
  28 to 32, 133 and 160.
\<close>

definition split_once :: "char \<Rightarrow> string \<Rightarrow> string list" where
  "split_once c s =
     (if c \<in> set s then [takeWhile (\<lambda>x. x \<noteq> c) s, tl (dropWhile (\<lambda>x. x \<noteq> c) s)] else [s])"

function split :: "char \<Rightarrow> string \<Rightarrow> string list" where
  "split c s =
     (if c \<in> set s then takeWhile (\<lambda>x. x \<noteq> c) s # split c (tl (dropWhile (\<lambda>x. x \<noteq> c) s))
      else [s])"
  by pat_completeness auto
termination
proof (relation "measure (\<lambda>(c, s). length s)")
  show "wf (measure (\<lambda>(c, s). length s))"
    by simp
next
  fix c :: char and s :: string
  assume "c \<in> set s"
  then have "dropWhile (\<lambda>x. x \<noteq> c) s \<noteq> []"
    by simp
  then have "length (tl (dropWhile (\<lambda>x. x \<noteq> c) s)) < length (dropWhile (\<lambda>x. x \<noteq> c) s)"
    by (cases "dropWhile (\<lambda>x. x \<noteq> c) s") simp_all
  also have "\<dots> \<le> length s"
    by (rule length_dropWhile_le)
  finally show "((c, tl (dropWhile (\<lambda>x. x \<noteq> c) s)), (c, s)) \<in> measure (\<lambda>(c, s). length s)"
    by simp
qed

declare split.simps [simp del]

definition list_index :: "'a list \<Rightarrow> nat \<Rightarrow> exn + 'a" where
  "list_index xs i = (if i < length xs then Inr (xs ! i) else Inl IndexError)"

definition remove_char :: "char \<Rightarrow> string \<Rightarrow> string" where
  "remove_char c s = filter (\<lambda>x. x \<noteq> c) s"

definition isspace :: "char \<Rightarrow> bool" where
  "isspace c = (c \<in> {CHR 0x09, CHR 0x0A, CHR 0x0B, CHR 0x0C, CHR 0x0D,
                      CHR 0x1C, CHR 0x1D, CHR 0x1E, CHR 0x1F, CHR 0x20,
                      CHR 0x85, CHR 0xA0})"

definition strip :: "string \<Rightarrow> string" where
  "strip s = rev (dropWhile isspace (rev (dropWhile isspace s)))"

definition startswith :: "string \<Rightarrow> string \<Rightarrow> bool" where
  "startswith s p = prefix p s"

text \<open>\<open>contains sub s\<close> is \<^verbatim>\<open>sub in s\<close> for two strings.\<close>

definition contains :: "string \<Rightarrow> string \<Rightarrow> bool" where
  "contains sub s = sublist sub s"

section \<open>\<^verbatim>\<open>parse_stored_proc_statement\<close>\<close>

definition parse_stored_proc_statement :: "string \<Rightarrow> exn + (string \<times> string)" where
  "parse_stored_proc_statement statement =
     (case list_index (split_once (CHR ''('') statement) 1 of
        Inl e \<Rightarrow> Inl e
      | Inr line0 \<Rightarrow>
          let line = remove_char (CHR 0x27) (remove_char (CHR 0x22) line0) in
          (case list_index (split (CHR '','') line) 0 of
             Inl e \<Rightarrow> Inl e
           | Inr field0 \<Rightarrow>
               let config_name = strip field0 in
               (case list_index (split (CHR '','') line) 1 of
                  Inl e \<Rightarrow> Inl e
                | Inr field1 \<Rightarrow>
                    let config_value = strip field1 in
                    Inr (config_name, config_value))))"

section \<open>\<^verbatim>\<open>analyze_scripts_config\<close>\<close>

text \<open>
  The files that \<^verbatim>\<open>rglob('*.sql')\<close> yields are given as a list, in the order of the
  enumeration: the path of each file, and either its lines or the exception that
  \<^verbatim>\<open>open\<close> or \<^verbatim>\<open>readlines\<close> raises. Paths are POSIX paths, where \<^verbatim>\<open>os.path.normpath\<close> leaves
  \<^verbatim>\<open>CLIENT_SPECIFIC_DIRECTORY\<close> as it is.
\<close>

type_synonym script_file = "string \<times> (exn + string list)"

definition CLIENT_SPECIFIC_DIRECTORY :: string where
  "CLIENT_SPECIFIC_DIRECTORY = ''aicon/config/inserts/client''"

definition file_is_added :: "MySQLCompare \<Rightarrow> string \<Rightarrow> bool" where
  "file_is_added s path_str =
     (if contains CLIENT_SPECIFIC_DIRECTORY path_str
      then (case client_specific_keyword s of
              None \<Rightarrow> False
            | Some keyword \<Rightarrow> keyword \<noteq> [] \<and> contains keyword path_str)
      else True)"

text \<open>
  \<open>takes_key substring_condition config_name\<close> is the test
  \<^verbatim>\<open>not substring_condition or (substring_condition and substring_condition in config_name)\<close>.
\<close>

definition takes_key :: "string \<Rightarrow> string \<Rightarrow> bool" where
  "takes_key substring_condition config_name =
     (substring_condition = [] \<or> (substring_condition \<noteq> [] \<and> contains substring_condition config_name))"

fun scan_lines :: "string \<Rightarrow> string list \<Rightarrow> pydict \<times> int \<Rightarrow> exn + (pydict \<times> int)" where
  "scan_lines substring_condition [] acc = Inr acc"
| "scan_lines substring_condition (line # lines) (flagged_keys, total_warnings) =
     (if \<not> startswith line ''CALL'' \<or> contains ''CAST'' line
      then scan_lines substring_condition lines (flagged_keys, total_warnings)
      else
        (case parse_stored_proc_statement line of
           Inl e \<Rightarrow> Inl e
         | Inr (config_name, config_value) \<Rightarrow>
             scan_lines substring_condition lines
               (if takes_key substring_condition config_name
                then setitem config_name config_value flagged_keys
                else flagged_keys,
                if has_key config_name flagged_keys then total_warnings + 1 else total_warnings)))"

fun scan_files :: "string \<Rightarrow> script_file list \<Rightarrow> pydict \<times> int \<Rightarrow> exn + (pydict \<times> int)" where
  "scan_files substring_condition [] acc = Inr acc"
| "scan_files substring_condition ((filename, content) # files) acc =
     (case content of
        Inl e \<Rightarrow> Inl e
      | Inr lines \<Rightarrow>
          (case scan_lines substring_condition lines acc of
             Inl e \<Rightarrow> Inl e
           | Inr acc' \<Rightarrow> scan_files substring_condition files acc'))"

definition analyze_scripts_config ::
  "MySQLCompare \<Rightarrow> script_file list \<Rightarrow> string \<Rightarrow> exn + (pydict \<times> int)" where
  "analyze_scripts_config s scripts_dir substring_condition =
     (let all_sql_config_insert_scripts = filter (\<lambda>(path, content). file_is_added s path) scripts_dir
      in scan_files substring_condition all_sql_config_insert_scripts ([], 0))"

section \<open>The database side\<close>

text \<open>
  A fetched row is a tuple of the table \<^verbatim>\<open>config_field\<close>; the methods read its columns
  2 (the key), 3 (the value) and 5 (the validity date). \<^verbatim>\<open>valid_date.strftime('%Y')\<close> writes
  the year in decimal, so its comparison with \<^verbatim>\<open>'9999'\<close> is the comparison of the year
  with 9999. What \<^verbatim>\<open>execute_sql\<close> and \<^verbatim>\<open>fetchall\<close> give is a parameter: the rows, or the
  exception raised.

  \<open>in_year_9999\<close> is the test that both variants make on a row. It reads the year alone:
  the month and the day of the validity date have no part in it, so it does not compare
  the date with any one date.
\<close>

record date =
  year :: nat
  month :: nat
  day :: nat

record row =
  column2 :: string
  column3 :: string
  column5 :: date

definition in_year_9999 :: "row \<Rightarrow> bool" where
  "in_year_9999 r = (year (column5 r) = 9999)"

subsection \<open>The original variant\<close>

fun rows_loop_original :: "string \<Rightarrow> row list \<Rightarrow> pydict \<times> int \<Rightarrow> pydict \<times> int" where
  "rows_loop_original substring_condition [] acc = acc"
| "rows_loop_original substring_condition (r # rows) (flagged_keys, total_warnings) =
     (if year (column5 r) \<noteq> 9999
      then rows_loop_original substring_condition rows (flagged_keys, total_warnings)
      else
        let config_name = column2 r; config_value = column3 r in
        rows_loop_original substring_condition rows
          (if takes_key substring_condition config_name
           then setitem config_name config_value flagged_keys
           else flagged_keys,
           if has_key config_name flagged_keys then total_warnings + 1 else total_warnings))"

definition analyze_database_config_original ::
  "MySQLCompare \<Rightarrow> exn + row list \<Rightarrow> string \<Rightarrow> (exn + pydict) \<times> MySQLCompare" where
  "analyze_database_config_original s fetched substring_condition =
     (case fetched of
        Inl e \<Rightarrow> (Inl e, s)
      | Inr rows \<Rightarrow>
          let (flagged_keys, total_warnings) = rows_loop_original substring_condition rows ([], 0)
          in (Inr flagged_keys, s\<lparr>TOTAL_WARNINGS := TOTAL_WARNINGS s + total_warnings\<rparr>))"

subsection \<open>The refactored variant\<close>

definition fetch_data_from_db ::
  "MySQLCompare \<Rightarrow> exn + row list \<Rightarrow> (exn + row list) \<times> MySQLCompare" where
  "fetch_data_from_db s fetched =
     (case fetched of
        Inl e \<Rightarrow> (Inl e, logger_error ''Failed to fetch data from the database: '' (Some e) s)
      | Inr rows \<Rightarrow> (Inr rows, s))"

fun filter_loop :: "string \<Rightarrow> row list \<Rightarrow> pydict \<Rightarrow> pydict" where
  "filter_loop substring_condition [] filtered_data = filtered_data"
| "filter_loop substring_condition (r # rows) filtered_data =
     (if year (column5 r) \<noteq> 9999
      then filter_loop substring_condition rows filtered_data
      else
        let config_name = column2 r; config_value = column3 r in
        filter_loop substring_condition rows
          (if takes_key substring_condition config_name
           then setitem config_name config_value filtered_data
           else filtered_data))"

definition filter_data :: "row list \<Rightarrow> string \<Rightarrow> pydict" where
  "filter_data data substring_condition = filter_loop substring_condition data []"

fun duplicates_loop :: "(string \<times> string) list \<Rightarrow> pydict \<times> int \<Rightarrow> pydict \<times> int" where
  "duplicates_loop [] acc = acc"
| "duplicates_loop ((config_name, config_value) # items) (flagged_keys, total_warnings) =
     duplicates_loop items
       (setitem config_name config_value flagged_keys,
        if has_key config_name flagged_keys then total_warnings + 1 else total_warnings)"

definition check_for_duplicates :: "pydict \<Rightarrow> pydict \<times> int" where
  "check_for_duplicates data = duplicates_loop data ([], 0)"

text \<open>
  The loop of \<^verbatim>\<open>analyze_database_config\<close> that follows the call of
  \<^verbatim>\<open>check_for_duplicates\<close>; it runs over the items of \<^verbatim>\<open>filtered_data\<close> and starts from the
  dictionary and the count that \<^verbatim>\<open>check_for_duplicates\<close> returned.
\<close>

fun process_loop :: "string \<Rightarrow> (string \<times> string) list \<Rightarrow> pydict \<times> int \<Rightarrow> pydict \<times> int" where
  "process_loop substring_condition [] acc = acc"
| "process_loop substring_condition ((config_name, config_value) # items) (flagged_keys, total_warnings) =
     process_loop substring_condition items
       (if takes_key substring_condition config_name
        then setitem config_name config_value flagged_keys
        else flagged_keys,
        if has_key config_name flagged_keys then total_warnings + 1 else total_warnings)"

definition analyze_database_config ::
  "MySQLCompare \<Rightarrow> exn + row list \<Rightarrow> string \<Rightarrow> (exn + pydict) \<times> MySQLCompare" where
  "analyze_database_config s fetched substring_condition =
     (case fetch_data_from_db s fetched of
        (Inl e, s1) \<Rightarrow> (Inl e, s1)
      | (Inr data, s1) \<Rightarrow>
          let filtered_data = filter_data data substring_condition;
              (flagged_keys, total_warnings) =
                 process_loop substring_condition filtered_data (check_for_duplicates filtered_data)
          in (Inr flagged_keys, s1\<lparr>TOTAL_WARNINGS := TOTAL_WARNINGS s1 + total_warnings\<rparr>))"

section \<open>\<^verbatim>\<open>generate_missing_stored_proc_statement\<close>\<close>

definition stored_proc_statement :: "string \<Rightarrow> string \<Rightarrow> string" where
  "stored_proc_statement k v =
     ''CALL SP_CREATE_CONFIG_FIELD('' @ [CHR 0x27] @ k @ [CHR 0x27] @ '', '' @
       [CHR 0x27] @ v @ [CHR 0x27] @ '', null);''"

definition five_newlines :: string where
  "five_newlines = replicate 5 (CHR 0x0A)"

definition dashes :: string where
  "dashes = concat (replicate 5 ''----------'')"

definition does_not_apply :: string where
  "does_not_apply =
     ''STORED PROCEDURES FOR MISSING KEYS: Since we'' @ [CHR 0x27] @
     ''re trying to CHANGE THE SCRIPTS to MATCH THE SERVER,this DOES NOT APPLY! Skipping...''"

text \<open>
  The loop over \<^verbatim>\<open>entries\<close>. Its state is the variable \<^verbatim>\<open>statement\<close> (unbound until the
  first assignment), the two lists of statements, and the object, which receives the
  ERROR records. Reading \<^verbatim>\<open>statement\<close> while it is unbound raises \<^verbatim>\<open>UnboundLocalError\<close>.
\<close>

fun statements_loop ::
  "entry list \<Rightarrow> string option \<times> string list \<times> string list \<times> MySQLCompare \<Rightarrow>
     (exn + string list \<times> string list) \<times> MySQLCompare" where
  "statements_loop [] (statement, missing, diff, s) = (Inr (missing, diff), s)"
| "statements_loop ((difference_type, config_name, config_value_database, config_value_script) # entries)
       (statement, missing, diff, s) =
     (let (statement1, s1) =
            (if comparison_direction s = ''scripts''
             then (Some (stored_proc_statement config_name config_value_script), s)
             else if comparison_direction s = ''server''
             then (Some (stored_proc_statement config_name config_value_database), s)
             else (statement,
                   logger_error (''UNKNOWN COMPARISON DIRECTION: '' @ comparison_direction s) None s))
      in
        if difference_type = ''MISSING''
        then (case statement1 of
                None \<Rightarrow> (Inl UnboundLocalError, s1)
              | Some st \<Rightarrow> statements_loop entries (statement1, missing @ [st], diff, s1))
        else if difference_type = ''CHANGE''
        then (case statement1 of
                None \<Rightarrow> (Inl UnboundLocalError, s1)
              | Some st \<Rightarrow> statements_loop entries (statement1, missing, diff @ [st], s1))
        else statements_loop entries
               (statement1, missing, diff,
                logger_error (''UNKNOWN COMPARISON TYPE: '' @ difference_type) None s1))"

definition print_lines :: "string list \<Rightarrow> MySQLCompare \<Rightarrow> MySQLCompare" where
  "print_lines xs s = fold (\<lambda>x. py_print (Line x)) xs s"

definition generate_missing_stored_proc_statement ::
  "MySQLCompare \<Rightarrow> entry list \<Rightarrow> (exn + unit) \<times> MySQLCompare" where
  "generate_missing_stored_proc_statement s entries =
     (if length entries > 0 \<and> is_print_stored_procs s
      then
        let s1 = print_lines
                   [five_newlines, ''Generating procedure calls ...'',
                    ''**Printing to make copy-paste-able'', dashes] s
        in (case statements_loop entries (None, [], [], s1) of
              (Inl e, s2) \<Rightarrow> (Inl e, s2)
            | (Inr (all_missing_key_stored_proc_statements, all_diff_key_stored_proc_statements), s2) \<Rightarrow>
                let s3 = (if comparison_direction s2 = ''scripts''
                          then print_lines
                                 (''STORED PROCEDURES FOR MISSING KEYS:'' #
                                    all_missing_key_stored_proc_statements) s2
                          else if comparison_direction s2 = ''server''
                          then print_lines [does_not_apply] s2
                          else s2);
                    s4 = print_lines
                           ([dashes, five_newlines,
                             ''STORED PROCEDURES FOR KEYS WITH DIFFERENT VALUES:''] @
                            all_diff_key_stored_proc_statements @ [dashes]) s3
                in (Inr (), s4))
      else (Inr (), s))"

section \<open>\<^verbatim>\<open>notify_warnings\<close>, \<^verbatim>\<open>connect\<close> and \<^verbatim>\<open>close_connection\<close>\<close>

text \<open>
  \<^verbatim>\<open>additional_warnings\<close> is an integer at the only call site, so the conversion and the
  additions of the refactored variant do not raise, and both variants compute the same.
\<close>

definition notify_warnings :: "MySQLCompare \<Rightarrow> int \<Rightarrow> MySQLCompare" where
  "notify_warnings s additional_warnings =
     (let s1 = s\<lparr>TOTAL_WARNINGS := TOTAL_WARNINGS s + database_warnings s\<rparr>
      in s1\<lparr>TOTAL_WARNINGS := TOTAL_WARNINGS s1 + additional_warnings\<rparr>)"

text \<open>
  What \<^verbatim>\<open>connection.connect()\<close> does is a parameter: \<open>None\<close> when it connects, the
  exception otherwise. The refactored variant turns a \<^verbatim>\<open>peewee.OperationalError\<close> into
  \<^verbatim>\<open>sys.exit(1)\<close> and lets any other exception through; the original variant turns every
  \<^verbatim>\<open>Exception\<close> into \<^verbatim>\<open>sys.exit(1)\<close>.
\<close>

definition connect :: "MySQLCompare \<Rightarrow> exn option \<Rightarrow> (exn + unit) \<times> MySQLCompare" where
  "connect s outcome =
     (case outcome of
        None \<Rightarrow> (Inr (), s\<lparr>connection_open := True\<rparr>)
      | Some e \<Rightarrow>
          if e = OperationalError
          then (Inl (SystemExit 1),
                logger_error ''MySQL Connection Status: Not Connected. '' (Some e) s)
          else (Inl e, s))"

definition connect_original :: "MySQLCompare \<Rightarrow> exn option \<Rightarrow> (exn + unit) \<times> MySQLCompare" where
  "connect_original s outcome =
     (case outcome of
        None \<Rightarrow> (Inr (), s\<lparr>connection_open := True\<rparr>)
      | Some e \<Rightarrow>
          if is_Exception e
          then (Inl (SystemExit 1),
                logger_error ''MySQL Connection Status: Not Connected. '' (Some e) s)
          else (Inl e, s))"

definition close_connection :: "MySQLCompare \<Rightarrow> MySQLCompare" where
  "close_connection s = s\<lparr>connection_open := False\<rparr>"

section \<open>\<^verbatim>\<open>main\<close>\<close>

text \<open>
  The command-line arguments that the methods read, and the environment of one run: what
  the connection attempt does, what the query returns, and the script files found under
  the two script directories.
\<close>

record args =
  contains_arg :: string
  client_keyword :: "string option"
  print_stored_procs :: bool
  print_table :: bool
  comparison_direction_arg :: string

record env =
  connect_outcome :: "exn option"
  fetched_rows :: "exn + row list"
  alenza_scripts :: "script_file list"
  aicon_scripts :: "script_file list"

text \<open>
  The object before \<^verbatim>\<open>__init__\<close> calls \<^verbatim>\<open>connect\<close>: the class attribute \<^verbatim>\<open>TOTAL_WARNINGS\<close> is
  0, nothing is logged or printed yet, and there is no connection.
\<close>

definition new_object :: "args \<Rightarrow> MySQLCompare" where
  "new_object a =
     \<lparr>is_print_table_diff = print_table a,
      is_print_stored_procs = print_stored_procs a,
      client_specific_keyword = client_keyword a,
      comparison_direction = comparison_direction_arg a,
      TOTAL_WARNINGS = 0,
      database_warnings = 0,
      connection_open = False,
      error_log = [],
      printed = []\<rparr>"

text \<open>\<open>merge_dicts a b\<close> is \<^verbatim>\<open>{**a, **b}\<close>.\<close>

definition merge_dicts :: "pydict \<Rightarrow> pydict \<Rightarrow> pydict" where
  "merge_dicts a b = fold (\<lambda>(k, v). setitem k v) b a"

datatype run_end = Returned | Raised exn

subsection \<open>The refactored variant\<close>

text \<open>
  \<^verbatim>\<open>main\<close> is a sequence of five \<^verbatim>\<open>try\<close> blocks. The first one logs the arguments and
  sleeps; it has no part in the model. The second one builds the object, which connects.
  The body of the third one is \<open>analyze_configurations\<close>.
\<close>

definition analyze_configurations ::
  "MySQLCompare \<Rightarrow> args \<Rightarrow> env \<Rightarrow> (exn + pydict \<times> pydict \<times> int \<times> int) \<times> MySQLCompare" where
  "analyze_configurations mysql a environment =
     (case analyze_database_config mysql (fetched_rows environment) (contains_arg a) of
        (Inl e, s1) \<Rightarrow> (Inl e, s1)
      | (Inr database_flagged_keys, s1) \<Rightarrow>
          (case analyze_scripts_config s1 (alenza_scripts environment) (contains_arg a) of
             Inl e \<Rightarrow> (Inl e, s1)
           | Inr (alenza_scripts_flagged_keys, alenza_script_warnings) \<Rightarrow>
               (case analyze_scripts_config s1 (aicon_scripts environment) (contains_arg a) of
                  Inl e \<Rightarrow> (Inl e, s1)
                | Inr (aicon_scripts_flagged_keys, aicon_script_warnings) \<Rightarrow>
                    (Inr (database_flagged_keys,
                          merge_dicts alenza_scripts_flagged_keys aicon_scripts_flagged_keys,
                          alenza_script_warnings, aicon_script_warnings), s1))))"

text \<open>
  The body of the fourth \<^verbatim>\<open>try\<close> block with its handler: an \<^verbatim>\<open>Exception\<close> is logged and
  the run goes on; anything else leaves \<^verbatim>\<open>main\<close>.
\<close>

definition compare_and_generate ::
  "MySQLCompare \<Rightarrow> pydict \<Rightarrow> pydict \<Rightarrow> (exn + unit) \<times> MySQLCompare" where
  "compare_and_generate mysql database_flagged_keys all_scripts_flagged_keys =
     (let (differences, s1) =
            compare_database_to_scripts mysql (Dict database_flagged_keys) (Dict all_scripts_flagged_keys)
      in if differences \<noteq> []
         then (case generate_missing_stored_proc_statement s1 differences of
                 (Inl e, s2) \<Rightarrow>
                   if is_Exception e
                   then (Inr (), logger_error ''Error comparing database to scripts: '' (Some e) s2)
                   else (Inl e, s2)
               | (Inr u, s2) \<Rightarrow> (Inr (), s2))
         else (Inr (), s1))"

definition main :: "args \<Rightarrow> env \<Rightarrow> run_end \<times> MySQLCompare" where
  "main a environment =
     (case connect (new_object a) (connect_outcome environment) of
        (Inl e, s1) \<Rightarrow>
          if is_Exception e
          then (Returned, logger_error ''Error initializing MySQLCompare: '' (Some e) s1)
          else (Raised e, s1)
      | (Inr u, mysql) \<Rightarrow>
          (case analyze_configurations mysql a environment of
             (Inl e, s2) \<Rightarrow>
               if is_Exception e
               then (Returned, logger_error ''Error analyzing configurations: '' (Some e) s2)
               else (Raised e, s2)
           | (Inr (database_flagged_keys, all_scripts_flagged_keys,
                   alenza_script_warnings, aicon_script_warnings), s2) \<Rightarrow>
               (case compare_and_generate s2 database_flagged_keys all_scripts_flagged_keys of
                  (Inl e, s3) \<Rightarrow> (Raised e, s3)
                | (Inr u, s3) \<Rightarrow>
                    (Returned,
                     close_connection
                       (notify_warnings s3 (alenza_script_warnings + aicon_script_warnings))))))"

subsection \<open>The original variant\<close>

definition main_original :: "args \<Rightarrow> env \<Rightarrow> run_end \<times> MySQLCompare" where
  "main_original a environment =
     (case connect_original (new_object a) (connect_outcome environment) of
        (Inl e, s1) \<Rightarrow> (Raised e, s1)
      | (Inr u, mysql) \<Rightarrow>
          (case analyze_database_config_original mysql (fetched_rows environment) (contains_arg a) of
             (Inl e, s2) \<Rightarrow> (Raised e, s2)
           | (Inr database_flagged_keys, s2) \<Rightarrow>
               (case analyze_scripts_config s2 (alenza_scripts environment) (contains_arg a) of
                  Inl e \<Rightarrow> (Raised e, s2)
                | Inr (alenza_scripts_flagged_keys, alenza_script_warnings) \<Rightarrow>
                    (case analyze_scripts_config s2 (aicon_scripts environment) (contains_arg a) of
                       Inl e \<Rightarrow> (Raised e, s2)
                     | Inr (aicon_scripts_flagged_keys, aicon_script_warnings) \<Rightarrow>
                         (case compare_database_to_scripts_original s2 (Dict database_flagged_keys)
                                 (Dict (merge_dicts alenza_scripts_flagged_keys
                                          aicon_scripts_flagged_keys)) of
                            (Inl e, s3) \<Rightarrow> (Raised e, s3)
                          | (Inr differences, s3) \<Rightarrow>
                              (case (if differences \<noteq> []
                                     then generate_missing_stored_proc_statement s3 differences
                                     else (Inr (), s3)) of
                                 (Inl e, s4) \<Rightarrow> (Raised e, s4)
                               | (Inr u, s4) \<Rightarrow>
                                   (Returned,
                                    notify_warnings s4
                                      (alenza_script_warnings + aicon_script_warnings))))))))"

text \<open>The values that \<^verbatim>\<open>argparse\<close> gives the optional arguments when none is passed.\<close>

definition default_args :: args where
  "default_args =
     \<lparr>contains_arg = [], client_keyword = None, print_stored_procs = False,
      print_table = False, comparison_direction_arg = ''scripts''\<rparr>"

section \<open>Functions used to state the properties\<close>

text \<open>\<open>unquote\<close> is the removal of both quote characters, as the parser does it.\<close>

definition unquote :: "string \<Rightarrow> string" where
  "unquote s = remove_char (CHR 0x27) (remove_char (CHR 0x22) s)"

text \<open>
  The observations that a pass over the fetched rows retains: the key and the value of
  every row whose validity date is in the year 9999 and whose key passes the substring
  test, in the order of the rows.
\<close>

definition observations :: "string \<Rightarrow> row list \<Rightarrow> (string \<times> string) list" where
  "observations substring_condition rows =
     map (\<lambda>r. (column2 r, column3 r))
       (filter (\<lambda>r. in_year_9999 r \<and> takes_key substring_condition (column2 r)) rows)"

text \<open>
  Four rows for the examples: two with the key \<^verbatim>\<open>A\<close> dated 9999-12-31, an expired one, and one
  dated 9999-01-01.
\<close>

definition row_A1 :: row where
  "row_A1 = \<lparr>column2 = ''A'', column3 = ''1'', column5 = \<lparr>year = 9999, month = 12, day = 31\<rparr>\<rparr>"

definition row_A2 :: row where
  "row_A2 = \<lparr>column2 = ''A'', column3 = ''2'', column5 = \<lparr>year = 9999, month = 12, day = 31\<rparr>\<rparr>"

definition row_B_expired :: row where
  "row_B_expired = \<lparr>column2 = ''B'', column3 = ''3'', column5 = \<lparr>year = 2020, month = 6, day = 30\<rparr>\<rparr>"

definition row_C_january :: row where
  "row_C_january = \<lparr>column2 = ''C'', column3 = ''7'', column5 = \<lparr>year = 9999, month = 1, day = 1\<rparr>\<rparr>"

text \<open>
  The statements that \<^verbatim>\<open>generate_missing_stored_proc_statement\<close> builds for the entries of
  one difference type, with the value of the script or that of the database; and the
  ERROR records for the entries whose type is neither \<^verbatim>\<open>MISSING\<close> nor \<^verbatim>\<open>CHANGE\<close>.
\<close>

definition statements_of :: "string \<Rightarrow> bool \<Rightarrow> entry list \<Rightarrow> string list" where
  "statements_of difference_type use_script_value entries =
     map (\<lambda>(t, config_name, config_value_database, config_value_script).
            stored_proc_statement config_name
              (if use_script_value then config_value_script else config_value_database))
       (filter (\<lambda>(t, config_name, config_value_database, config_value_script). t = difference_type)
          entries)"

definition unknown_types :: "entry list \<Rightarrow> log_record list" where
  "unknown_types entries =
     map (\<lambda>(t, config_name, config_value_database, config_value_script).
            (''UNKNOWN COMPARISON TYPE: '' @ t, None))
       (filter (\<lambda>(t, config_name, config_value_database, config_value_script).
                  t \<noteq> ''MISSING'' \<and> t \<noteq> ''CHANGE'') entries)"

text \<open>The default arguments with \<^verbatim>\<open>--print_stored_procs\<close> set and a comparison direction.\<close>

definition printing_args :: "string \<Rightarrow> args" where
  "printing_args direction =
     default_args\<lparr>print_stored_procs := True, comparison_direction_arg := direction\<rparr>"

text \<open>
  Two environments for the examples: one in which every step succeeds, with one row in
  the table and one script file, and the same with a query that fails.
\<close>

definition environment_ok :: env where
  "environment_ok =
     \<lparr>connect_outcome = None,
      fetched_rows = Inr [row_A1],
      alenza_scripts =
        [(''alenza/config/inserts/a.sql'', Inr [''CALL SP_CREATE_CONFIG_FIELD('A', '2', null);''])],
      aicon_scripts = []\<rparr>"

definition environment_query_fails :: env where
  "environment_query_fails = environment_ok\<lparr>fetched_rows := Inl DatabaseError\<rparr>"

section \<open>Properties of \<^verbatim>\<open>compare_database_to_scripts\<close>\<close>

lemma has_key_map_of: "has_key k d \<longleftrightarrow> map_of d k \<noteq> None"
  by (simp add: has_key_def keys_def map_of_eq_None_iff)

lemma compare_loop_keys:
  "set (fst (compare_loop database_keys script_keys ks acc)) \<subseteq>
     set acc \<union> {e. fst (snd e) \<in> set ks}"
proof (induction ks arbitrary: acc)
  case Nil
  then show ?case by simp
next
  case (Cons x ks)
  have step: "set (fst (compare_loop database_keys script_keys ks (acc @ [(t, x, dv, sv)]))) \<subseteq>
     set acc \<union> {e. fst (snd e) \<in> set (x # ks)}" for t dv sv
    using Cons.IH[of "acc @ [(t, x, dv, sv)]"] by auto
  have skip: "set (fst (compare_loop database_keys script_keys ks acc)) \<subseteq>
     set acc \<union> {e. fst (snd e) \<in> set (x # ks)}"
    using Cons.IH[of acc] by auto
  show ?case
    using step skip by (simp split: sum.splits bool.splits)
qed

lemma compare_loop_total:
  "set ks \<subseteq> set (keys scripts) \<Longrightarrow>
   \<exists>differences. compare_loop (Dict database) (Dict scripts) ks acc = (differences, None)"
proof (induction ks arbitrary: acc)
  case Nil
  then show ?case by simp
next
  case (Cons x ks)
  then have x: "map_of scripts x \<noteq> None" and ks: "set ks \<subseteq> set (keys scripts)"
    using has_key_map_of[of x scripts] by (simp_all add: has_key_def)
  then obtain sv where sv: "map_of scripts x = Some sv" by blast
  show ?case
  proof (cases "map_of database x")
    case None
    then show ?thesis using sv Cons.IH[OF ks] by (simp add: has_key_map_of)
  next
    case (Some dv)
    then show ?thesis using sv Cons.IH[OF ks] by (simp add: has_key_map_of)
  qed
qed

lemma compare_loop_equal:
  "map_of database = map_of scripts \<Longrightarrow> set ks \<subseteq> set (keys scripts) \<Longrightarrow>
   compare_loop (Dict database) (Dict scripts) ks acc = (acc, None)"
proof (induction ks arbitrary: acc)
  case Nil
  then show ?case by simp
next
  case (Cons x ks)
  then have "map_of scripts x \<noteq> None" and ks: "set ks \<subseteq> set (keys scripts)"
    using has_key_map_of[of x scripts] by (simp_all add: has_key_def)
  then obtain sv where sv: "map_of scripts x = Some sv" by blast
  with Cons.prems(1) have "map_of database x = Some sv" by simp
  with sv Cons.IH[OF Cons.prems(1) ks] show ?case
    by (simp add: has_key_map_of)
qed

text \<open>
  Claim C2. For two dictionaries, every record that \<^verbatim>\<open>compare_database_to_scripts\<close> returns
  has a key of the scripts dictionary, so a key that only the database dictionary has is
  never reported; and when the two dictionaries are equal (as Python compares them: the
  same keys with the same values) the result is the empty list. Both variants.
\<close>

theorem compare_reports_script_keys_only:
  "(\<forall>(t, k, dv, sv) \<in> set (fst (compare_database_to_scripts s (Dict database) (Dict scripts))).
       has_key k scripts) \<and>
   (map_of database = map_of scripts \<longrightarrow>
      fst (compare_database_to_scripts s (Dict database) (Dict scripts)) = []) \<and>
   (\<exists>differences.
      fst (compare_database_to_scripts_original s (Dict database) (Dict scripts)) = Inr differences \<and>
      (\<forall>(t, k, dv, sv) \<in> set differences. has_key k scripts) \<and>
      (map_of database = map_of scripts \<longrightarrow> differences = []))"
proof -
  obtain differences where loop:
    "compare_loop (Dict database) (Dict scripts) (keys scripts) [] = (differences, None)"
    using compare_loop_total[of "keys scripts" scripts database "[]"] by auto
  have in_scripts: "\<forall>(t, k, dv, sv) \<in> set differences. has_key k scripts"
    using compare_loop_keys[of "Dict database" "Dict scripts" "keys scripts" "[]"] loop
    by (auto simp: has_key_def)
  have equal: "map_of database = map_of scripts \<longrightarrow> differences = []"
    using compare_loop_equal[of database scripts "keys scripts" "[]"] loop by simp
  have refactored: "fst (compare_database_to_scripts s (Dict database) (Dict scripts)) = differences"
    using loop by (simp add: compare_database_to_scripts_def)
  have original:
    "fst (compare_database_to_scripts_original s (Dict database) (Dict scripts)) = Inr differences"
    using loop by (simp add: compare_database_to_scripts_original_def)
  from in_scripts equal refactored original show ?thesis
    by simp
qed

theorem compare_reports_script_keys_only_witness:
  "fst (compare_database_to_scripts (new_object default_args)
        (Dict [(''A'', ''1''), (''B'', ''2''), (''D'', ''5'')])
        (Dict [(''A'', ''1''), (''B'', ''3''), (''C'', ''4'')])) =
     [(''CHANGE'', ''B'', ''2'', ''3''), (''MISSING'', ''C'', ''N/A'', ''4'')] \<and>
   has_key ''B'' [(''A'', ''1''), (''B'', ''3''), (''C'', ''4'')] \<and>
   has_key ''C'' [(''A'', ''1''), (''B'', ''3''), (''C'', ''4'')] \<and>
   map_of [(''B'', ''2''), (''A'', ''1'')] = map_of [(''A'', ''1''), (''B'', ''2'')] \<and>
   fst (compare_database_to_scripts (new_object default_args)
        (Dict [(''B'', ''2''), (''A'', ''1'')]) (Dict [(''A'', ''1''), (''B'', ''2'')])) = [] \<and>
   fst (compare_database_to_scripts_original (new_object default_args)
        (Dict [(''B'', ''2''), (''A'', ''1'')]) (Dict [(''A'', ''1''), (''B'', ''2'')])) = Inr []"
  using compare_reports_script_keys_only [of "new_object default_args"
          "[(''A'', ''1''), (''B'', ''2''), (''D'', ''5'')]" "[(''A'', ''1''), (''B'', ''3''), (''C'', ''4'')]"]
        compare_reports_script_keys_only [of "new_object default_args"
          "[(''B'', ''2''), (''A'', ''1'')]" "[(''A'', ''1''), (''B'', ''2'')]"]
  by (auto simp: compare_database_to_scripts_def compare_database_to_scripts_original_def
        keys_def has_key_def)

text \<open>
  Claim C3. For the database dictionary \<^verbatim>\<open>{A: "1", B: "2"}\<close> and the scripts dictionary
  \<^verbatim>\<open>{A: "1", B: "3", C: "4"}\<close>, in that insertion order, the method returns the records
  \<^verbatim>\<open>['CHANGE', 'B', '2', '3']\<close> and \<^verbatim>\<open>['MISSING', 'C', 'N/A', '4']\<close> in that order and leaves
  \<^verbatim>\<open>TOTAL_WARNINGS\<close> as it was. Both variants.
\<close>

theorem compare_scenario:
  "fst (compare_database_to_scripts s
          (Dict [(''A'', ''1''), (''B'', ''2'')])
          (Dict [(''A'', ''1''), (''B'', ''3''), (''C'', ''4'')])) =
     [(''CHANGE'', ''B'', ''2'', ''3''), (''MISSING'', ''C'', ''N/A'', ''4'')] \<and>
   TOTAL_WARNINGS (snd (compare_database_to_scripts s
          (Dict [(''A'', ''1''), (''B'', ''2'')])
          (Dict [(''A'', ''1''), (''B'', ''3''), (''C'', ''4'')]))) = TOTAL_WARNINGS s \<and>
   fst (compare_database_to_scripts_original s
          (Dict [(''A'', ''1''), (''B'', ''2'')])
          (Dict [(''A'', ''1''), (''B'', ''3''), (''C'', ''4'')])) =
     Inr [(''CHANGE'', ''B'', ''2'', ''3''), (''MISSING'', ''C'', ''N/A'', ''4'')] \<and>
   TOTAL_WARNINGS (snd (compare_database_to_scripts_original s
          (Dict [(''A'', ''1''), (''B'', ''2'')])
          (Dict [(''A'', ''1''), (''B'', ''3''), (''C'', ''4'')]))) = TOTAL_WARNINGS s"
  by (simp add: compare_database_to_scripts_def compare_database_to_scripts_original_def
        keys_def has_key_def py_print_def)

theorem compare_scenario_witness:
  "compare_database_to_scripts (new_object default_args)
          (Dict [(''A'', ''1''), (''B'', ''2'')])
          (Dict [(''A'', ''1''), (''B'', ''3''), (''C'', ''4'')]) =
     ([(''CHANGE'', ''B'', ''2'', ''3''), (''MISSING'', ''C'', ''N/A'', ''4'')],
      new_object default_args) \<and>
   TOTAL_WARNINGS (new_object default_args) = 0"
  using compare_scenario [of "new_object default_args"]
  by (simp add: compare_database_to_scripts_def keys_def has_key_def new_object_def
        default_args_def)

text \<open>
  Claim C8, as amended. In the refactored variant, whenever one of the two arguments is not
  a dictionary, \<^verbatim>\<open>compare_database_to_scripts\<close> writes the ERROR record
  \<^verbatim>\<open>Input arguments must be dictionaries.\<close> and returns the empty list; it neither raises
  nor prints.
\<close>

theorem compare_rejects_non_dicts:
  assumes "\<not> isinstance_dict database_keys \<or> \<not> isinstance_dict script_keys"
  shows "compare_database_to_scripts s database_keys script_keys =
    ([], logger_error ''Input arguments must be dictionaries.'' None s)"
  using assms by (simp add: compare_database_to_scripts_def)

theorem compare_rejects_non_dicts_witness:
  "\<not> isinstance_dict NoneObj \<and>
   fst (compare_database_to_scripts (new_object default_args) (Dict [(''A'', ''1'')]) NoneObj) = [] \<and>
   error_log (snd (compare_database_to_scripts (new_object default_args) (Dict [(''A'', ''1'')]) NoneObj)) =
     [(''Input arguments must be dictionaries.'', None)]"
  using compare_rejects_non_dicts [of "Dict [(''A'', ''1'')]" NoneObj "new_object default_args"]
  by (simp add: logger_error_def new_object_def)

text \<open>
  The original variant has no such check: with \<^verbatim>\<open>None\<close> for \<^verbatim>\<open>script_keys\<close> the loop
  \<^verbatim>\<open>for config_name in script_keys\<close> raises \<^verbatim>\<open>TypeError\<close>, and nothing is logged.
\<close>

theorem compare_original_raises_on_None:
  "\<not> isinstance_dict NoneObj \<and>
   compare_database_to_scripts_original (new_object default_args) (Dict [(''A'', ''1'')]) NoneObj =
     (Inl TypeError, new_object default_args)"
  by (simp add: compare_database_to_scripts_original_def)

section \<open>Properties of \<^verbatim>\<open>parse_stored_proc_statement\<close> and \<^verbatim>\<open>analyze_scripts_config\<close>\<close>

lemma split_no_separator: "c \<notin> set s \<Longrightarrow> split c s = [s]"
  by (subst split.simps) auto

lemma split_at_first:
  assumes "c \<notin> set a"
  shows "split c (a @ c # b) = a # split c b"
proof -
  have tw: "takeWhile (\<lambda>x. x \<noteq> c) (a @ c # b) = a"
    using assms by (auto simp: takeWhile_tail)
  have dw: "dropWhile (\<lambda>x. x \<noteq> c) (a @ c # b) = c # b"
    using assms by (auto simp: dropWhile_append3)
  show ?thesis
    by (subst split.simps) (simp add: tw dw)
qed

lemma split_once_at_first:
  assumes "c \<notin> set a"
  shows "split_once c (a @ c # b) = [a, b]"
proof -
  have tw: "takeWhile (\<lambda>x. x \<noteq> c) (a @ c # b) = a"
    using assms by (auto simp: takeWhile_tail)
  have dw: "dropWhile (\<lambda>x. x \<noteq> c) (a @ c # b) = c # b"
    using assms by (auto simp: dropWhile_append3)
  show ?thesis
    by (simp add: split_once_def tw dw)
qed

lemma length_split: "length (split c s) = Suc (length (filter (\<lambda>x. x = c) s))"
proof (induction "length s" arbitrary: s rule: less_induct)
  case less
  show ?case
  proof (cases "c \<in> set s")
    case False
    then have "filter (\<lambda>x. x = c) s = []"
      by (auto simp: filter_empty_conv)
    with False show ?thesis
      by (simp add: split_no_separator)
  next
    case True
    then obtain a b where s: "s = a @ c # b" and a: "c \<notin> set a"
      by (meson split_list_first)
    have "length b < length s"
      by (simp add: s)
    then have "length (split c b) = Suc (length (filter (\<lambda>x. x = c) b))"
      by (rule less)
    moreover have "filter (\<lambda>x. x = c) a = []"
      using a by (auto simp: filter_empty_conv)
    ultimately show ?thesis
      by (simp add: s split_at_first[OF a])
  qed
qed

lemma filter_remove_char: "q \<noteq> c \<Longrightarrow> filter (\<lambda>x. x = c) (remove_char q s) = filter (\<lambda>x. x = c) s"
  by (induction s) (auto simp: remove_char_def)

lemma length_split_remove_char:
  "q \<noteq> c \<Longrightarrow> length (split c (remove_char q s)) = length (split c s)"
  by (simp add: length_split filter_remove_char)

lemma remove_char_append: "remove_char q (a @ b) = remove_char q a @ remove_char q b"
  by (simp add: remove_char_def)

lemma remove_char_Cons_other: "x \<noteq> q \<Longrightarrow> remove_char q (x # b) = x # remove_char q b"
  by (simp add: remove_char_def)

lemma set_remove_char: "set (remove_char q s) = set s - {q}"
  by (auto simp: remove_char_def)

lemma unquote_append: "unquote (a @ b) = unquote a @ unquote b"
  by (simp add: unquote_def remove_char_append)

lemma unquote_comma: "unquote (CHR '','' # b) = CHR '','' # unquote b"
  by (simp add: unquote_def remove_char_def)

lemma set_unquote: "set (unquote s) \<subseteq> set s"
  by (auto simp: unquote_def set_remove_char)

lemma parse_after_paren:
  assumes "CHR ''('' \<notin> set before"
  shows "parse_stored_proc_statement (before @ CHR ''('' # rest) =
     (case list_index (split (CHR '','') (unquote rest)) 0 of
        Inl e \<Rightarrow> Inl e
      | Inr field0 \<Rightarrow>
          (case list_index (split (CHR '','') (unquote rest)) 1 of
             Inl e \<Rightarrow> Inl e
           | Inr field1 \<Rightarrow> Inr (strip field0, strip field1)))"
  by (simp add: parse_stored_proc_statement_def split_once_at_first[OF assms] list_index_def
        unquote_def Let_def)

lemma parse_no_paren:
  "CHR ''('' \<notin> set statement \<Longrightarrow> parse_stored_proc_statement statement = Inl IndexError"
  by (simp add: parse_stored_proc_statement_def split_once_def list_index_def)

lemma parse_one_field:
  assumes "CHR ''('' \<notin> set before" and "length (split (CHR '','') rest) < 2"
  shows "parse_stored_proc_statement (before @ CHR ''('' # rest) = Inl IndexError"
proof -
  have "length (split (CHR '','') (unquote rest)) = length (split (CHR '','') rest)"
    by (simp add: unquote_def length_split_remove_char)
  with assms(2) have "length (split (CHR '','') (unquote rest)) = 1"
    by (simp add: length_split)
  then show ?thesis
    by (simp add: parse_after_paren[OF assms(1)] list_index_def)
qed

lemma parse_only_IndexError: "parse_stored_proc_statement statement = Inl e \<Longrightarrow> e = IndexError"
  by (auto simp: parse_stored_proc_statement_def list_index_def Let_def split: sum.splits if_splits)

lemma scan_lines_raises:
  assumes "statement \<in> set lines" and "startswith statement ''CALL''"
    and "\<not> contains ''CAST'' statement"
    and "parse_stored_proc_statement statement = Inl IndexError"
  shows "scan_lines substring_condition lines acc = Inl IndexError"
  using assms(1)
proof (induction lines arbitrary: acc)
  case Nil
  then show ?case by simp
next
  case (Cons line lines)
  obtain flagged_keys total_warnings where acc: "acc = (flagged_keys, total_warnings)"
    by (cases acc)
  show ?case
  proof (cases "line = statement")
    case True
    then show ?thesis
      using assms(2-4) by (simp add: acc)
  next
    case False
    with Cons.prems have "statement \<in> set lines" by simp
    then have "\<And>acc. scan_lines substring_condition lines acc = Inl IndexError"
      by (rule Cons.IH)
    then show ?thesis
      by (auto simp: acc split: sum.splits dest: parse_only_IndexError)
  qed
qed

lemma scan_files_raises:
  assumes "(path, Inr lines) \<in> set files"
    and "\<And>acc. scan_lines substring_condition lines acc = Inl IndexError"
  shows "\<exists>e. scan_files substring_condition files acc = Inl e"
  using assms(1)
proof (induction files arbitrary: acc)
  case Nil
  then show ?case by simp
next
  case (Cons f files)
  obtain filename content where f: "f = (filename, content)"
    by (cases f)
  show ?case
  proof (cases "f = (path, Inr lines)")
    case True
    then show ?thesis
      using assms(2) by (simp add: f)
  next
    case False
    with Cons.prems have "(path, Inr lines) \<in> set files" by simp
    then have "\<And>acc. \<exists>e. scan_files substring_condition files acc = Inl e"
      by (rule Cons.IH)
    then show ?thesis
      by (simp add: f split: sum.splits)
  qed
qed

text \<open>
  Claim C7. A statement whose text after the first opening parenthesis has fewer than two
  comma-separated fields makes \<^verbatim>\<open>parse_stored_proc_statement\<close> raise \<^verbatim>\<open>IndexError\<close>; and when
  such a statement is a line of a file that \<^verbatim>\<open>analyze_scripts_config\<close> reads, starts with
  \<^verbatim>\<open>CALL\<close> and does not contain \<^verbatim>\<open>CAST\<close>, \<^verbatim>\<open>analyze_scripts_config\<close> raises too: it returns
  no dictionary.
\<close>

theorem malformed_statement_is_fatal:
  assumes "CHR ''('' \<notin> set before"
    and "length (split (CHR '','') rest) < 2"
    and "statement = before @ ''('' @ rest"
  shows "parse_stored_proc_statement statement = Inl IndexError \<and>
    (startswith statement ''CALL'' \<and> \<not> contains ''CAST'' statement \<and>
     statement \<in> set lines \<and> (path, Inr lines) \<in> set scripts_dir \<and> file_is_added s path \<longrightarrow>
       (\<exists>e. analyze_scripts_config s scripts_dir substring_condition = Inl e))"
proof -
  have parse: "parse_stored_proc_statement statement = Inl IndexError"
    using parse_one_field[OF assms(1,2)] by (simp add: assms(3))
  have "\<exists>e. analyze_scripts_config s scripts_dir substring_condition = Inl e"
    if "startswith statement ''CALL''" and "\<not> contains ''CAST'' statement"
      and "statement \<in> set lines" and "(path, Inr lines) \<in> set scripts_dir"
      and "file_is_added s path"
  proof -
    have "\<And>acc. scan_lines substring_condition lines acc = Inl IndexError"
      using scan_lines_raises[OF that(3) that(1) that(2) parse] .
    moreover have "(path, Inr lines) \<in> set (filter (\<lambda>(path, content). file_is_added s path) scripts_dir)"
      using that(4,5) by simp
    ultimately show ?thesis
      unfolding analyze_scripts_config_def Let_def by (rule scan_files_raises[rotated])
  qed
  with parse show ?thesis
    by blast
qed

theorem malformed_statement_is_fatal_witness:
  "CHR ''('' \<notin> set ''CALL SP_CREATE_CONFIG_FIELD'' \<and>
   length (split (CHR '','') ''only_key);'') < 2 \<and>
   parse_stored_proc_statement ''CALL SP_CREATE_CONFIG_FIELD(only_key);'' = Inl IndexError \<and>
   (\<exists>e. analyze_scripts_config (new_object default_args)
          [(''alenza/config/inserts/a.sql'',
            Inr [''-- settings'', ''CALL SP_CREATE_CONFIG_FIELD(only_key);''])] [] = Inl e)"
proof -
  have before: "CHR ''('' \<notin> set ''CALL SP_CREATE_CONFIG_FIELD''"
    by simp
  have fields: "length (split (CHR '','') ''only_key);'') < 2"
    by (simp add: length_split)
  have call: "startswith ''CALL SP_CREATE_CONFIG_FIELD(only_key);'' ''CALL''"
    by (simp add: startswith_def)
  have cast: "\<not> contains ''CAST'' ''CALL SP_CREATE_CONFIG_FIELD(only_key);''"
    by (simp add: contains_def sublist_code)
  have added: "file_is_added (new_object default_args) ''alenza/config/inserts/a.sql''"
    by (simp add: file_is_added_def contains_def CLIENT_SPECIFIC_DIRECTORY_def sublist_code)
  show ?thesis
    using malformed_statement_is_fatal [OF before fields,
        of "''CALL SP_CREATE_CONFIG_FIELD(only_key);''"
           "[''-- settings'', ''CALL SP_CREATE_CONFIG_FIELD(only_key);'']"
           "''alenza/config/inserts/a.sql''"
           "[(''alenza/config/inserts/a.sql'',
              Inr [''-- settings'', ''CALL SP_CREATE_CONFIG_FIELD(only_key);''])]"
           "new_object default_args" "[]"]
      before fields call cast added
    by simp
qed

lemma parse_two_fields:
  assumes "CHR ''('' \<notin> set before" and "CHR '','' \<notin> set k" and "CHR '','' \<notin> set v"
  shows "parse_stored_proc_statement (before @ ''('' @ k @ '','' @ v @ '','' @ remainder) =
    Inr (strip (unquote k), strip (unquote v))"
proof -
  have k: "CHR '','' \<notin> set (unquote k)" and v: "CHR '','' \<notin> set (unquote v)"
    using assms(2,3) set_unquote by blast+
  have "unquote (k @ '','' @ v @ '','' @ remainder) =
      unquote k @ CHR '','' # (unquote v @ CHR '','' # unquote remainder)"
    by (simp add: unquote_append unquote_comma)
  then have "split (CHR '','') (unquote (k @ '','' @ v @ '','' @ remainder)) =
      unquote k # unquote v # split (CHR '','') (unquote remainder)"
    by (simp add: split_at_first[OF k] split_at_first[OF v])
  then show ?thesis
    using parse_after_paren[OF assms(1), of "k @ '','' @ v @ '','' @ remainder"]
    by (simp add: list_index_def)
qed


text \<open>
  Claim C10. When the text after the first opening parenthesis is a first field, a comma,
  a second field, a comma and any remainder, the parser returns the first field as the
  key and the second field as the value, both without quote characters and surrounding
  white space; whatever follows the second comma has no effect on the result. A value
  that contains a comma is therefore cut at that comma.
\<close>

theorem value_cut_at_comma:
  assumes "CHR ''('' \<notin> set before" and "CHR '','' \<notin> set k" and "CHR '','' \<notin> set v"
  shows "parse_stored_proc_statement (before @ ''('' @ k @ '','' @ v @ '','' @ remainder) =
    Inr (strip (unquote k), strip (unquote v))"
  using assms by (rule parse_two_fields)

theorem value_cut_at_comma_witness:
  "CHR ''('' \<notin> set ''CALL SP_CREATE_CONFIG_FIELD'' \<and>
   CHR '','' \<notin> set ([CHR 0x27] @ ''key'' @ [CHR 0x27]) \<and>
   CHR '','' \<notin> set ('' '' @ [CHR 0x27] @ ''a'') \<and>
   parse_stored_proc_statement ''CALL SP_CREATE_CONFIG_FIELD('key', 'a,b', null);'' =
     Inr (''key'', ''a'')"
  using value_cut_at_comma [of "''CALL SP_CREATE_CONFIG_FIELD''" "[CHR 0x27] @ ''key'' @ [CHR 0x27]"
      "'' '' @ [CHR 0x27] @ ''a''" "''b', null);''"]
  by (simp add: unquote_def remove_char_def strip_def isspace_def)


section \<open>Properties of the database side\<close>

subsection \<open>Dictionaries\<close>

lemma keys_setitem: "set (keys (setitem k v d)) = insert k (set (keys d))"
  by (induction d) (auto simp: keys_def)

lemma map_of_setitem: "map_of (setitem k v d) = (map_of d)(k \<mapsto> v)"
  by (induction d) (auto simp: fun_eq_iff)

lemma wf_dict_setitem: "wf_dict d \<Longrightarrow> wf_dict (setitem k v d)"
proof (induction d)
  case Nil
  then show ?case by (simp add: wf_dict_def keys_def)
next
  case (Cons p d)
  then have "wf_dict d" and "fst p \<notin> set (keys d)"
    by (simp_all add: wf_dict_def keys_def)
  with Cons.IH have "wf_dict (setitem k v d)" by simp
  then show ?case
    using \<open>fst p \<notin> set (keys d)\<close> Cons.prems keys_setitem[of k v d]
    by (auto simp: wf_dict_def keys_def)
qed

lemma setitem_new: "k \<notin> set (keys d) \<Longrightarrow> setitem k v d = d @ [(k, v)]"
  by (induction d) (auto simp: keys_def)

lemma setitem_same: "wf_dict d \<Longrightarrow> (k, v) \<in> set d \<Longrightarrow> setitem k v d = d"
proof (induction d)
  case Nil
  then show ?case by simp
next
  case (Cons p d)
  show ?case
  proof (cases "fst p = k")
    case True
    with Cons.prems have "p = (k, v)"
      by (cases p) (force simp: wf_dict_def keys_def)
    then show ?thesis by simp
  next
    case False
    with Cons.prems have "wf_dict d" and "(k, v) \<in> set d"
      by (auto simp: wf_dict_def keys_def)
    with Cons.IH False show ?thesis by simp
  qed
qed

subsection \<open>What the loops compute\<close>

text \<open>
  The loop of the original variant, started from a dictionary whose keys all pass the
  substring test: the result maps every key to its last retained value, and the count
  grows by the number of retained observations minus the number of retained keys that
  are new.
\<close>

lemma rows_loop_original_result:
  assumes "\<forall>k \<in> set (keys d0). takes_key sub k"
  shows "rows_loop_original sub rows (d0, n0) = (d, n) \<Longrightarrow>
    map_of d = map_of d0 ++ map_of (rev (observations sub rows)) \<and>
    set (keys d) = set (keys d0) \<union> fst ` set (observations sub rows) \<and>
    n = n0 + int (length (observations sub rows)) -
          int (card (fst ` set (observations sub rows) - set (keys d0)))"
  using assms
proof (induction rows arbitrary: d0 n0)
  case Nil
  then show ?case by (simp add: observations_def)
next
  case (Cons r rows)
  show ?case
  proof (cases "in_year_9999 r")
    case False
    then have obs: "observations sub (r # rows) = observations sub rows"
      by (simp add: observations_def)
    from False Cons.prems(1) have "rows_loop_original sub rows (d0, n0) = (d, n)"
      by (simp add: in_year_9999_def)
    from Cons.IH[OF this Cons.prems(2)] show ?thesis
      by (simp add: obs)
  next
    case valid: True
    let ?k = "column2 r" and ?v = "column3 r"
    show ?thesis
    proof (cases "takes_key sub ?k")
      case False
      then have obs: "observations sub (r # rows) = observations sub rows"
        by (simp add: observations_def)
      from False Cons.prems(2) have "\<not> has_key ?k d0"
        by (auto simp: has_key_def)
      with False valid Cons.prems(1) have "rows_loop_original sub rows (d0, n0) = (d, n)"
        by (simp add: in_year_9999_def Let_def)
      from Cons.IH[OF this Cons.prems(2)] show ?thesis
        by (simp add: obs)
    next
      case True
      then have obs: "observations sub (r # rows) = (?k, ?v) # observations sub rows"
        using valid by (simp add: observations_def)
      let ?K = "fst ` set (observations sub rows)"
      have fin: "finite ?K" by simp
      have inv: "\<forall>k \<in> set (keys (setitem ?k ?v d0)). takes_key sub k"
        using True Cons.prems(2) by (simp add: keys_setitem)
      show ?thesis
      proof (cases "has_key ?k d0")
        case present: True
        with True valid Cons.prems(1)
        have "rows_loop_original sub rows (setitem ?k ?v d0, n0 + 1) = (d, n)"
          by (simp add: in_year_9999_def Let_def)
        from Cons.IH[OF this inv]
        have m: "map_of d = map_of (setitem ?k ?v d0) ++ map_of (rev (observations sub rows))"
          and ks: "set (keys d) = set (keys (setitem ?k ?v d0)) \<union> ?K"
          and c: "n = n0 + 1 + int (length (observations sub rows)) -
                int (card (?K - set (keys (setitem ?k ?v d0))))"
          by simp_all
        have same: "insert ?k (set (keys d0)) = set (keys d0)"
          using present by (auto simp: has_key_def)
        have "insert ?k ?K - set (keys d0) = ?K - set (keys d0)"
          using present by (auto simp: has_key_def)
        then have card: "card (fst ` set (observations sub (r # rows)) - set (keys d0)) =
            card (?K - set (keys d0))"
          by (simp add: obs)
        have m': "map_of d = map_of d0 ++ map_of (rev (observations sub (r # rows)))"
          using m by (simp add: obs map_of_setitem map_add_def fun_eq_iff split: option.splits)
        have ks': "set (keys d) = set (keys d0) \<union> fst ` set (observations sub (r # rows))"
          using ks same by (auto simp: keys_setitem obs)
        have c': "n = n0 + int (length (observations sub (r # rows))) -
            int (card (fst ` set (observations sub (r # rows)) - set (keys d0)))"
          using c card same by (simp add: keys_setitem obs)
        show ?thesis
          using m' ks' c' by blast
      next
        case absent: False
        with True valid Cons.prems(1)
        have "rows_loop_original sub rows (setitem ?k ?v d0, n0) = (d, n)"
          by (simp add: in_year_9999_def Let_def)
        from Cons.IH[OF this inv]
        have m: "map_of d = map_of (setitem ?k ?v d0) ++ map_of (rev (observations sub rows))"
          and ks: "set (keys d) = set (keys (setitem ?k ?v d0)) \<union> ?K"
          and c: "n = n0 + int (length (observations sub rows)) -
                int (card (?K - set (keys (setitem ?k ?v d0))))"
          by simp_all
        have notin: "?k \<notin> set (keys d0)"
          using absent by (simp add: has_key_def)
        have "insert ?k ?K - set (keys d0) = insert ?k (?K - insert ?k (set (keys d0)))"
          using notin by auto
        then have "card (insert ?k ?K - set (keys d0)) = Suc (card (?K - insert ?k (set (keys d0))))"
          using fin by simp
        then have card: "int (card (fst ` set (observations sub (r # rows)) - set (keys d0))) =
            1 + int (card (?K - set (keys (setitem ?k ?v d0))))"
          by (simp add: obs keys_setitem)
        have m': "map_of d = map_of d0 ++ map_of (rev (observations sub (r # rows)))"
          using m by (simp add: obs map_of_setitem map_add_def fun_eq_iff split: option.splits)
        have ks': "set (keys d) = set (keys d0) \<union> fst ` set (observations sub (r # rows))"
          using ks by (auto simp: keys_setitem obs)
        have c': "n = n0 + int (length (observations sub (r # rows))) -
            int (card (fst ` set (observations sub (r # rows)) - set (keys d0)))"
          using c card by (simp add: keys_setitem obs)
        show ?thesis
          using m' ks' c' by blast
      qed
    qed
  qed
qed


lemma rows_loop_original_wf:
  "wf_dict d0 \<Longrightarrow> wf_dict (fst (rows_loop_original sub rows (d0, n0)))"
  by (induction rows arbitrary: d0 n0) (simp_all add: Let_def wf_dict_setitem)

lemma filter_loop_original:
  "filter_loop sub rows d0 = fst (rows_loop_original sub rows (d0, n0))"
  by (induction rows arbitrary: d0 n0) (simp_all add: Let_def)

lemma filter_data_original:
  "filter_data rows sub = fst (rows_loop_original sub rows ([], 0))"
  by (simp add: filter_data_def filter_loop_original[of sub rows "[]" 0])

lemma wf_dict_filter_data: "wf_dict (filter_data rows sub)"
  using rows_loop_original_wf[of "[]" sub rows 0]
  by (simp add: filter_data_original wf_dict_def keys_def)

lemma keys_filter_data:
  "set (keys (filter_data rows sub)) = fst ` set (observations sub rows)"
proof -
  obtain d n where r: "rows_loop_original sub rows ([], 0) = (d, n)"
    by (cases "rows_loop_original sub rows ([], 0)")
  from rows_loop_original_result[OF _ r] show ?thesis
    by (simp add: filter_data_original r keys_def)
qed

lemma observations_takes_key: "k \<in> fst ` set (observations sub rows) \<Longrightarrow> takes_key sub k"
  by (auto simp: observations_def)

lemma duplicates_loop_fresh:
  "distinct (map fst items) \<Longrightarrow> set (map fst items) \<inter> set (keys d0) = {} \<Longrightarrow>
   duplicates_loop items (d0, n0) = (d0 @ items, n0)"
proof (induction items arbitrary: d0)
  case Nil
  then show ?case by simp
next
  case (Cons kv items)
  obtain k v where kv: "kv = (k, v)" by (cases kv)
  from Cons.prems have fresh: "k \<notin> set (keys d0)" and d: "distinct (map fst items)"
    and "set (map fst items) \<inter> set (keys (d0 @ [(k, v)])) = {}"
    by (auto simp: kv keys_def)
  from Cons.IH[OF d this(3)] fresh show ?case
    by (simp add: kv setitem_new has_key_def)
qed

lemma check_for_duplicates_wf: "wf_dict data \<Longrightarrow> check_for_duplicates data = (data, 0)"
  using duplicates_loop_fresh[of data "[]" 0]
  by (simp add: check_for_duplicates_def wf_dict_def keys_def)

lemma process_loop_same:
  "wf_dict d \<Longrightarrow> set items \<subseteq> set d \<Longrightarrow> \<forall>k \<in> set (keys d). takes_key sub k \<Longrightarrow>
   process_loop sub items (d, n) = (d, n + int (length items))"
proof (induction items arbitrary: n)
  case Nil
  then show ?case by simp
next
  case (Cons kv items)
  obtain k v where kv: "kv = (k, v)" by (cases kv)
  from Cons.prems have mem: "(k, v) \<in> set d" and rest: "set items \<subseteq> set d"
    by (simp_all add: kv)
  from mem have key: "has_key k d"
    by (force simp: has_key_def keys_def)
  with Cons.prems(3) have "takes_key sub k"
    by (simp add: has_key_def)
  with key Cons.IH[OF Cons.prems(1) rest Cons.prems(3), of "n + 1"] setitem_same[OF Cons.prems(1) mem]
  show ?case
    by (simp add: kv)
qed

lemma analyze_database_config_rows:
  "analyze_database_config s (Inr rows) sub =
     (Inr (filter_data rows sub),
      s\<lparr>TOTAL_WARNINGS := TOTAL_WARNINGS s + int (length (filter_data rows sub))\<rparr>)"
proof -
  let ?d = "filter_data rows sub"
  have "\<forall>k \<in> set (keys ?d). takes_key sub k"
    using observations_takes_key by (simp add: keys_filter_data)
  then have "process_loop sub ?d (?d, 0) = (?d, 0 + int (length ?d))"
    using process_loop_same[OF wf_dict_filter_data, of ?d rows sub sub 0] by simp
  then show ?thesis
    by (simp add: analyze_database_config_def fetch_data_from_db_def Let_def
          check_for_duplicates_wf[OF wf_dict_filter_data])
qed

lemma analyze_database_config_original_rows:
  "analyze_database_config_original s (Inr rows) sub =
     (Inr (filter_data rows sub),
      s\<lparr>TOTAL_WARNINGS := TOTAL_WARNINGS s + snd (rows_loop_original sub rows ([], 0))\<rparr>)"
  by (simp add: analyze_database_config_original_def filter_data_original split: prod.splits)

lemma length_filter_data:
  "length (filter_data rows sub) = card (fst ` set (observations sub rows))"
proof -
  have "distinct (keys (filter_data rows sub))"
    using wf_dict_filter_data by (simp add: wf_dict_def)
  then have "card (set (keys (filter_data rows sub))) = length (keys (filter_data rows sub))"
    by (rule distinct_card)
  then show ?thesis
    using keys_filter_data[of rows sub] by (simp add: keys_def)
qed

lemmas analyze_database_config_eval =
  analyze_database_config_def analyze_database_config_original_def fetch_data_from_db_def
  filter_data_def check_for_duplicates_def takes_key_def has_key_def keys_def Let_def
  row_A1_def row_A2_def row_B_expired_def row_C_january_def new_object_def default_args_def

subsection \<open>The duplicate count\<close>

text \<open>
  In the original variant \<^verbatim>\<open>TOTAL_WARNINGS\<close> grows by the number of retained observations
  minus the number of distinct retained keys, and the dictionary holds the last value
  of each key. In the refactored variant \<^verbatim>\<open>check_for_duplicates\<close> receives a dictionary, in
  which no key is repeated, and the loop that follows it finds every key of
  \<^verbatim>\<open>filtered_data\<close> in \<^verbatim>\<open>flagged_keys\<close>: \<^verbatim>\<open>TOTAL_WARNINGS\<close> grows by the number of distinct
  retained keys.
\<close>

lemma analyze_database_config_original_duplicates:
  "analyze_database_config_original s (Inr rows) sub = (Inr d, s') \<Longrightarrow>
   TOTAL_WARNINGS s' - TOTAL_WARNINGS s =
     int (length (observations sub rows)) - int (card (fst ` set (observations sub rows))) \<and>
   map_of d = map_of (rev (observations sub rows))"
proof -
  assume a: "analyze_database_config_original s (Inr rows) sub = (Inr d, s')"
  obtain d1 n where r: "rows_loop_original sub rows ([], 0) = (d1, n)"
    by (cases "rows_loop_original sub rows ([], 0)")
  from a r have "d = d1" and "TOTAL_WARNINGS s' = TOTAL_WARNINGS s + n"
    by (auto simp: analyze_database_config_original_def)
  with rows_loop_original_result[OF _ r] show ?thesis
    by (simp add: keys_def)
qed

lemma analyze_database_config_counts_keys:
  "analyze_database_config s (Inr rows) sub = (Inr d, s') \<Longrightarrow>
   TOTAL_WARNINGS s' - TOTAL_WARNINGS s = int (card (fst ` set (observations sub rows)))"
  by (auto simp: analyze_database_config_rows length_filter_data)

text \<open>
  Claim C1 says that the count is the number of retained observations minus the number of
  distinct retained keys. For a single row with the key \<^verbatim>\<open>A\<close> dated 9999-12-31 there
  is one retained observation and one key, so the count should be 0: the original variant
  adds 0 to \<^verbatim>\<open>TOTAL_WARNINGS\<close>, the refactored variant adds 1.
\<close>

theorem unique_key_counted_as_duplicate:
  "observations [] [row_A1] = [(''A'', ''1'')] \<and>
   fst (analyze_database_config (new_object default_args) (Inr [row_A1]) []) = Inr [(''A'', ''1'')] \<and>
   TOTAL_WARNINGS (snd (analyze_database_config (new_object default_args) (Inr [row_A1]) [])) = 1 \<and>
   TOTAL_WARNINGS (snd (analyze_database_config_original (new_object default_args) (Inr [row_A1]) [])) = 0"
  by (simp add: analyze_database_config_eval observations_def in_year_9999_def)

subsection \<open>The two variants return the same dictionary\<close>

text \<open>
  Claim C9. For the same fetched rows (or the same exception of the query) and the same
  substring, \<^verbatim>\<open>analyze_database_config\<close> of the refactored variant and of the original
  variant return the same dictionary, with the keys in the same order.
\<close>

theorem same_mapping_in_both_variants:
  "fst (analyze_database_config s fetched substring_condition) =
   fst (analyze_database_config_original s fetched substring_condition)"
proof (cases fetched)
  case (Inl e)
  then show ?thesis
    by (simp add: analyze_database_config_def analyze_database_config_original_def
          fetch_data_from_db_def)
next
  case (Inr rows)
  then show ?thesis
    by (simp add: analyze_database_config_rows analyze_database_config_original_rows)
qed

theorem same_mapping_in_both_variants_witness:
  "fst (analyze_database_config (new_object default_args) (Inr [row_A1, row_B_expired, row_A2]) []) =
     Inr [(''A'', ''2'')] \<and>
   fst (analyze_database_config_original (new_object default_args) (Inr [row_A1, row_B_expired, row_A2]) []) =
     Inr [(''A'', ''2'')]"
  using same_mapping_in_both_variants [of "new_object default_args" "Inr [row_A1, row_B_expired, row_A2]" "[]"]
  by (simp add: analyze_database_config_eval)

subsection \<open>Rows of another year than 9999\<close>






section \<open>Properties of \<^verbatim>\<open>generate_missing_stored_proc_statement\<close>\<close>

lemma print_lines_printed: "print_lines xs s = s\<lparr>printed := printed s @ map Line xs\<rparr>"
proof (induction xs arbitrary: s)
  case Nil
  then show ?case by (simp add: print_lines_def)
next
  case (Cons x xs)
  have "print_lines (x # xs) s = print_lines xs (py_print (Line x) s)"
    by (simp add: print_lines_def)
  then show ?case
    by (simp add: Cons.IH py_print_def)
qed

lemma statements_loop_known_direction:
  assumes "comparison_direction s = ''scripts'' \<or> comparison_direction s = ''server''"
  shows "statements_loop entries (statement, missing, diff, s) =
    (Inr (missing @ statements_of ''MISSING'' (comparison_direction s = ''scripts'') entries,
          diff @ statements_of ''CHANGE'' (comparison_direction s = ''scripts'') entries),
     s\<lparr>error_log := error_log s @ unknown_types entries\<rparr>)"
  using assms
proof (induction entries arbitrary: statement missing diff s)
  case Nil
  then show ?case by (simp add: statements_of_def unknown_types_def)
next
  case (Cons e entries)
  obtain t k dv sv where e: "e = (t, k, dv, sv)"
    by (cases e)
  have dir: "comparison_direction (logger_error m x s) = comparison_direction s" for m x
    by (simp add: logger_error_def)
  show ?case
  proof (cases "comparison_direction s = ''scripts''")
    case True
    then show ?thesis
      using Cons.IH[of s] Cons.IH[of "logger_error (''UNKNOWN COMPARISON TYPE: '' @ t) None s"]
      by (simp add: e statements_of_def unknown_types_def logger_error_def)
  next
    case False
    with Cons.prems have "comparison_direction s = ''server''" by simp
    then show ?thesis
      using Cons.IH[of s] Cons.IH[of "logger_error (''UNKNOWN COMPARISON TYPE: '' @ t) None s"]
      by (simp add: e statements_of_def unknown_types_def logger_error_def)
  qed
qed

lemma statements_printed:
  assumes "is_print_stored_procs s" and "entries \<noteq> []"
  shows "(comparison_direction s = ''scripts'' \<longrightarrow>
      generate_missing_stored_proc_statement s entries =
        (Inr (),
         s\<lparr>error_log := error_log s @ unknown_types entries,
           printed := printed s @ map Line
             ([five_newlines, ''Generating procedure calls ...'',
               ''**Printing to make copy-paste-able'', dashes,
               ''STORED PROCEDURES FOR MISSING KEYS:''] @
              statements_of ''MISSING'' True entries @
              [dashes, five_newlines, ''STORED PROCEDURES FOR KEYS WITH DIFFERENT VALUES:''] @
              statements_of ''CHANGE'' True entries @ [dashes])\<rparr>)) \<and>
    (comparison_direction s = ''server'' \<longrightarrow>
      generate_missing_stored_proc_statement s entries =
        (Inr (),
         s\<lparr>error_log := error_log s @ unknown_types entries,
           printed := printed s @ map Line
             ([five_newlines, ''Generating procedure calls ...'',
               ''**Printing to make copy-paste-able'', dashes, does_not_apply] @
              [dashes, five_newlines, ''STORED PROCEDURES FOR KEYS WITH DIFFERENT VALUES:''] @
              statements_of ''CHANGE'' False entries @ [dashes])\<rparr>))"
proof -
  let ?s1 = "s\<lparr>printed := printed s @ map Line [five_newlines, ''Generating procedure calls ...'',
               ''**Printing to make copy-paste-able'', dashes]\<rparr>"
  have loop: "statements_loop entries (None, [], [], ?s1) =
    (Inr (statements_of ''MISSING'' (comparison_direction s = ''scripts'') entries,
          statements_of ''CHANGE'' (comparison_direction s = ''scripts'') entries),
     ?s1\<lparr>error_log := error_log ?s1 @ unknown_types entries\<rparr>)"
    if "comparison_direction s = ''scripts'' \<or> comparison_direction s = ''server''"
    using statements_loop_known_direction[of ?s1 entries None "[]" "[]"] that by simp
  have scripts: ?thesis if "comparison_direction s = ''scripts''"
    using that assms loop by (simp add: generate_missing_stored_proc_statement_def print_lines_printed)
  have server: ?thesis if "comparison_direction s = ''server''"
    using that assms loop by (simp add: generate_missing_stored_proc_statement_def print_lines_printed)
  show ?thesis
    using scripts server by (cases "comparison_direction s = ''scripts''") auto
qed

text \<open>
  Claim C4, as amended. When \<^verbatim>\<open>is_print_stored_procs\<close> is set and there is at least one
  entry: with the direction \<^verbatim>\<open>scripts\<close> the method prints, under the heading for the
  missing keys, the statement \<^verbatim>\<open>CALL SP_CREATE_CONFIG_FIELD('X', 'Y', null);\<close> for every
  \<^verbatim>\<open>MISSING\<close> entry with key \<^verbatim>\<open>X\<close> and script value \<^verbatim>\<open>Y\<close>, and under the heading for the
  different values a statement with the script value for every \<^verbatim>\<open>CHANGE\<close> entry; with the
  direction \<^verbatim>\<open>server\<close> it prints no statement for a \<^verbatim>\<open>MISSING\<close> entry, and for every
  \<^verbatim>\<open>CHANGE\<close> entry a statement with the database value. When \<^verbatim>\<open>is_print_stored_procs\<close> is
  not set, or there is no entry, the method prints nothing, logs nothing and leaves the
  object as it is, for every list of entries and every direction.
\<close>

theorem statements_when_printing_is_enabled:
  "(is_print_stored_procs s \<and> entries \<noteq> [] \<and> comparison_direction s = ''scripts'' \<longrightarrow>
      generate_missing_stored_proc_statement s entries =
        (Inr (),
         s\<lparr>error_log := error_log s @ unknown_types entries,
           printed := printed s @ map Line
             ([five_newlines, ''Generating procedure calls ...'',
               ''**Printing to make copy-paste-able'', dashes,
               ''STORED PROCEDURES FOR MISSING KEYS:''] @
              statements_of ''MISSING'' True entries @
              [dashes, five_newlines, ''STORED PROCEDURES FOR KEYS WITH DIFFERENT VALUES:''] @
              statements_of ''CHANGE'' True entries @ [dashes])\<rparr>)) \<and>
   (is_print_stored_procs s \<and> entries \<noteq> [] \<and> comparison_direction s = ''server'' \<longrightarrow>
      generate_missing_stored_proc_statement s entries =
        (Inr (),
         s\<lparr>error_log := error_log s @ unknown_types entries,
           printed := printed s @ map Line
             ([five_newlines, ''Generating procedure calls ...'',
               ''**Printing to make copy-paste-able'', dashes, does_not_apply] @
              [dashes, five_newlines, ''STORED PROCEDURES FOR KEYS WITH DIFFERENT VALUES:''] @
              statements_of ''CHANGE'' False entries @ [dashes])\<rparr>)) \<and>
   (\<not> is_print_stored_procs s \<or> entries = [] \<longrightarrow>
      generate_missing_stored_proc_statement s entries = (Inr (), s))"
proof -
  have disabled: "generate_missing_stored_proc_statement s entries = (Inr (), s)"
    if "\<not> is_print_stored_procs s \<or> entries = []"
    using that by (auto simp: generate_missing_stored_proc_statement_def)
  show ?thesis
    using statements_printed[of s entries] disabled by blast
qed

theorem statements_when_printing_is_enabled_witness:
  "is_print_stored_procs (new_object (printing_args ''scripts'')) \<and>
   is_print_stored_procs (new_object (printing_args ''server'')) \<and>
   printed (snd (generate_missing_stored_proc_statement (new_object (printing_args ''scripts''))
      [(''MISSING'', ''X'', ''N/A'', ''Y''), (''CHANGE'', ''B'', ''2'', ''3'')])) =
     map Line
       [five_newlines, ''Generating procedure calls ...'', ''**Printing to make copy-paste-able'',
        dashes, ''STORED PROCEDURES FOR MISSING KEYS:'',
        ''CALL SP_CREATE_CONFIG_FIELD('X', 'Y', null);'',
        dashes, five_newlines, ''STORED PROCEDURES FOR KEYS WITH DIFFERENT VALUES:'',
        ''CALL SP_CREATE_CONFIG_FIELD('B', '3', null);'', dashes] \<and>
   printed (snd (generate_missing_stored_proc_statement (new_object (printing_args ''server''))
      [(''MISSING'', ''X'', ''N/A'', ''Y''), (''CHANGE'', ''B'', ''2'', ''3'')])) =
     map Line
       [five_newlines, ''Generating procedure calls ...'', ''**Printing to make copy-paste-able'',
        dashes, does_not_apply,
        dashes, five_newlines, ''STORED PROCEDURES FOR KEYS WITH DIFFERENT VALUES:'',
        ''CALL SP_CREATE_CONFIG_FIELD('B', '2', null);'', dashes] \<and>
   \<not> is_print_stored_procs (new_object default_args) \<and>
   generate_missing_stored_proc_statement (new_object default_args)
      [(''MISSING'', ''X'', ''N/A'', ''Y''), (''CHANGE'', ''B'', ''2'', ''3'')] =
     (Inr (), new_object default_args)"
  using statements_when_printing_is_enabled [of "new_object (printing_args ''scripts'')"
          "[(''MISSING'', ''X'', ''N/A'', ''Y''), (''CHANGE'', ''B'', ''2'', ''3'')]"]
        statements_when_printing_is_enabled [of "new_object (printing_args ''server'')"
          "[(''MISSING'', ''X'', ''N/A'', ''Y''), (''CHANGE'', ''B'', ''2'', ''3'')]"]
        statements_when_printing_is_enabled [of "new_object default_args"
          "[(''MISSING'', ''X'', ''N/A'', ''Y''), (''CHANGE'', ''B'', ''2'', ''3'')]"]
  by (simp add: new_object_def printing_args_def default_args_def statements_of_def
        stored_proc_statement_def)

text \<open>
  Without \<^verbatim>\<open>--print_stored_procs\<close>, which is the default, the method prints nothing: the
  \<^verbatim>\<open>MISSING\<close> entry below gets no statement although the direction is \<^verbatim>\<open>scripts\<close>.
\<close>

theorem nothing_printed_by_default:
  "\<not> is_print_stored_procs (new_object default_args) \<and>
   comparison_direction (new_object default_args) = ''scripts'' \<and>
   printed (new_object default_args) = [] \<and>
   generate_missing_stored_proc_statement (new_object default_args)
     [(''MISSING'', ''X'', ''N/A'', ''Y'')] = (Inr (), new_object default_args)"
  by (simp add: generate_missing_stored_proc_statement_def new_object_def default_args_def)


section \<open>Properties of \<^verbatim>\<open>main\<close>\<close>

text \<open>Only \<^verbatim>\<open>connect\<close> and \<^verbatim>\<open>close_connection\<close> change whether the connection is open.\<close>

lemma connection_open_logger_error [simp]:
  "connection_open (logger_error m e s) = connection_open s"
  by (simp add: logger_error_def)

lemma connection_open_py_print [simp]:
  "connection_open (py_print x s) = connection_open s"
  by (simp add: py_print_def)

lemma connection_open_print_lines [simp]:
  "connection_open (print_lines xs s) = connection_open s"
  by (simp add: print_lines_printed)

lemma connection_open_notify_warnings [simp]:
  "connection_open (notify_warnings s n) = connection_open s"
  by (simp add: notify_warnings_def)

lemma statements_loop_connection:
  "connection_open (snd (statements_loop entries (statement, missing, diff, s))) = connection_open s"
proof (induction entries arbitrary: statement missing diff s)
  case Nil
  then show ?case by simp
next
  case (Cons e entries)
  obtain t k dv sv where e: "e = (t, k, dv, sv)"
    by (cases e)
  show ?case
    by (simp add: e Cons.IH split: option.splits)
qed

lemma statements_loop_raises:
  "fst (statements_loop entries (statement, missing, diff, s)) = Inl e \<Longrightarrow> e = UnboundLocalError"
proof (induction entries arbitrary: statement missing diff s)
  case Nil
  then show ?case by simp
next
  case (Cons x entries)
  obtain t k dv sv where x: "x = (t, k, dv, sv)"
    by (cases x)
  from Cons.prems Cons.IH show ?case
    by (auto simp: x split: option.splits if_splits)
qed

lemma generate_connection:
  "connection_open (snd (generate_missing_stored_proc_statement s entries)) = connection_open s"
proof -
  let ?s1 = "print_lines [five_newlines, ''Generating procedure calls ...'',
     ''**Printing to make copy-paste-able'', dashes] s"
  have "connection_open (snd (statements_loop entries (None, [], [], ?s1))) = connection_open s"
    by (simp add: statements_loop_connection)
  then show ?thesis
    by (auto simp: generate_missing_stored_proc_statement_def Let_def split: prod.splits sum.splits)
qed

lemma generate_raises:
  "fst (generate_missing_stored_proc_statement s entries) = Inl e \<Longrightarrow> is_Exception e"
proof -
  assume a: "fst (generate_missing_stored_proc_statement s entries) = Inl e"
  let ?s1 = "print_lines [five_newlines, ''Generating procedure calls ...'',
     ''**Printing to make copy-paste-able'', dashes] s"
  from a have "fst (statements_loop entries (None, [], [], ?s1)) = Inl e"
    by (auto simp: generate_missing_stored_proc_statement_def Let_def
          split: prod.splits sum.splits if_splits)
  then have "e = UnboundLocalError"
    by (rule statements_loop_raises)
  then show ?thesis by simp
qed

lemma compare_connection:
  "connection_open (snd (compare_database_to_scripts s database_keys script_keys)) = connection_open s"
  by (auto simp: compare_database_to_scripts_def Let_def split: prod.splits sum.splits option.splits)

lemma compare_original_connection:
  "connection_open (snd (compare_database_to_scripts_original s database_keys script_keys)) =
     connection_open s"
  by (auto simp: compare_database_to_scripts_original_def split: prod.splits sum.splits option.splits)

lemma analyze_database_config_original_connection:
  "connection_open (snd (analyze_database_config_original s fetched sub)) = connection_open s"
  by (auto simp: analyze_database_config_original_def split: prod.splits sum.splits)

lemma analyze_database_config_connection:
  "connection_open (snd (analyze_database_config s fetched sub)) = connection_open s"
  by (auto simp: analyze_database_config_def fetch_data_from_db_def Let_def
        split: prod.splits sum.splits)

lemma analyze_configurations_connection:
  "connection_open (snd (analyze_configurations s a environment)) = connection_open s"
proof -
  obtain r s1 where db: "analyze_database_config s (fetched_rows environment) (contains_arg a) = (r, s1)"
    by (cases "analyze_database_config s (fetched_rows environment) (contains_arg a)")
  with analyze_database_config_connection[of s "fetched_rows environment" "contains_arg a"]
  have "connection_open s1 = connection_open s" by simp
  then show ?thesis
    by (auto simp: analyze_configurations_def db split: prod.splits sum.splits)
qed

lemma compare_and_generate_result:
  "\<exists>s'. compare_and_generate s database_flagged_keys all_scripts_flagged_keys = (Inr (), s') \<and>
        connection_open s' = connection_open s"
proof -
  obtain differences s1 where c: "compare_database_to_scripts s (Dict database_flagged_keys)
      (Dict all_scripts_flagged_keys) = (differences, s1)"
    by (cases "compare_database_to_scripts s (Dict database_flagged_keys) (Dict all_scripts_flagged_keys)")
  with compare_connection[of s "Dict database_flagged_keys" "Dict all_scripts_flagged_keys"]
  have s1: "connection_open s1 = connection_open s" by simp
  obtain g s2 where g: "generate_missing_stored_proc_statement s1 differences = (g, s2)"
    by (cases "generate_missing_stored_proc_statement s1 differences")
  with generate_connection[of s1 differences] s1
  have s2: "connection_open s2 = connection_open s" by simp
  show ?thesis
  proof (cases g)
    case (Inl e)
    with g generate_raises[of s1 differences e] have "is_Exception e" by simp
    with Inl g c s1 s2 show ?thesis
      by (simp add: compare_and_generate_def)
  next
    case (Inr u)
    with g c s1 s2 show ?thesis
      by (simp add: compare_and_generate_def)
  qed
qed

text \<open>
  When the third \<^verbatim>\<open>try\<close> block of the refactored \<^verbatim>\<open>main\<close> catches an exception, \<^verbatim>\<open>main\<close>
  returns from the handler; the \<^verbatim>\<open>finally\<close> clause that closes the connection belongs to
  the last \<^verbatim>\<open>try\<close> block and does not run.
\<close>

lemma main_returns_without_closing:
  assumes "connect_outcome environment = None"
    and "fst (analyze_configurations ((new_object a)\<lparr>connection_open := True\<rparr>) a environment) = Inl e"
    and "is_Exception e"
  shows "fst (main a environment) = Returned \<and> connection_open (snd (main a environment))"
proof -
  let ?mysql = "(new_object a)\<lparr>connection_open := True\<rparr>"
  obtain s2 where an: "analyze_configurations ?mysql a environment = (Inl e, s2)"
    using assms(2) by (cases "analyze_configurations ?mysql a environment") simp
  with analyze_configurations_connection[of ?mysql a environment] have "connection_open s2"
    by simp
  with an assms(1,3) show ?thesis
    by (simp add: main_def connect_def)
qed

lemma parse_example:
  "parse_stored_proc_statement ''CALL SP_CREATE_CONFIG_FIELD('A', '2', null);'' = Inr (''A'', ''2'')"
  using parse_two_fields [of "''CALL SP_CREATE_CONFIG_FIELD''" "[CHR 0x27] @ ''A'' @ [CHR 0x27]"
      "'' '' @ [CHR 0x27] @ ''2'' @ [CHR 0x27]" "'' null);''"]
  by (simp add: unquote_def remove_char_def strip_def isspace_def)

lemma analyze_configurations_example:
  "analyze_configurations ((new_object default_args)\<lparr>connection_open := True\<rparr>) default_args
     environment_ok =
   (Inr ([(''A'', ''1'')], [(''A'', ''2'')], 0, 0),
    (new_object default_args)\<lparr>connection_open := True, TOTAL_WARNINGS := 1\<rparr>)"
  by (simp add: analyze_configurations_def environment_ok_def analyze_database_config_eval
        analyze_scripts_config_def file_is_added_def contains_def sublist_code
        CLIENT_SPECIFIC_DIRECTORY_def startswith_def parse_example merge_dicts_def)

text \<open>
  Claim C6, as amended. In the refactored variant, a run that establishes the connection and
  whose analysis of the database and of the scripts raises nothing returns from \<^verbatim>\<open>main\<close>
  with the connection closed, also when the generation of the statements raises. In the
  original variant the connection, once established, is still open when \<^verbatim>\<open>main\<close> is left,
  however the run ends.
\<close>

theorem connection_closed_after_analysis:
  assumes "connect_outcome environment = None"
  shows "(\<forall>r. fst (analyze_configurations ((new_object a)\<lparr>connection_open := True\<rparr>) a environment) = Inr r \<longrightarrow>
            fst (main a environment) = Returned \<and> \<not> connection_open (snd (main a environment))) \<and>
         connection_open (snd (main_original a environment))"
proof -
  let ?mysql = "(new_object a)\<lparr>connection_open := True\<rparr>"
  have refactored: "fst (main a environment) = Returned \<and> \<not> connection_open (snd (main a environment))"
    if r: "fst (analyze_configurations ?mysql a environment) = Inr r" for r
  proof -
    obtain s2 where an: "analyze_configurations ?mysql a environment = (Inr r, s2)"
      using r by (cases "analyze_configurations ?mysql a environment") simp
    obtain d sk w1 w2 where rr: "r = (d, sk, w1, w2)"
      by (cases r)
    obtain s3 where cg: "compare_and_generate s2 d sk = (Inr (), s3)"
      using compare_and_generate_result[of s2 d sk] by blast
    show ?thesis
      using assms an cg by (simp add: main_def connect_def rr close_connection_def)
  qed
  have original: "connection_open (snd (main_original a environment))"
  proof -
    have 0: "connection_open ?mysql" by simp
    obtain r1 s2 where db: "analyze_database_config_original ?mysql (fetched_rows environment)
        (contains_arg a) = (r1, s2)"
      by (cases "analyze_database_config_original ?mysql (fetched_rows environment) (contains_arg a)")
    with analyze_database_config_original_connection[of ?mysql "fetched_rows environment" "contains_arg a"]
    have s2: "connection_open s2" by simp
    have cmp: "connection_open s3 = connection_open s2"
      if "compare_database_to_scripts_original s2 x y = (r, s3)" for x y r s3
      using compare_original_connection[of s2 x y] that by simp
    have gen: "connection_open s4 = connection_open s3"
      if "generate_missing_stored_proc_statement s3 x = (r, s4)" for s3 x r s4
      using generate_connection[of s3 x] that by simp
    show ?thesis
      using assms db s2
      by (auto simp: main_original_def connect_original_def split: sum.splits prod.splits
            dest!: cmp gen)
  qed
  from refactored original show ?thesis by blast
qed


theorem connection_closed_after_analysis_witness:
  "connect_outcome environment_ok = None \<and>
   fst (analyze_configurations ((new_object default_args)\<lparr>connection_open := True\<rparr>)
          default_args environment_ok) = Inr ([(''A'', ''1'')], [(''A'', ''2'')], 0, 0) \<and>
   fst (main default_args environment_ok) = Returned \<and>
   \<not> connection_open (snd (main default_args environment_ok)) \<and>
   connection_open (snd (main_original default_args environment_ok))"
proof -
  have c: "connect_outcome environment_ok = None"
    by (simp add: environment_ok_def)
  show ?thesis
    using connection_closed_after_analysis [OF c, of default_args] c analyze_configurations_example
    by simp
qed

text \<open>
  The claim as stated fails: a successful run of the original variant ends with the
  connection open, and so does a run of the refactored variant whose query fails.
\<close>

theorem connection_left_open:
  "connect_outcome environment_ok = None \<and>
   fst (main_original default_args environment_ok) = Returned \<and>
   connection_open (snd (main_original default_args environment_ok)) \<and>
   connect_outcome environment_query_fails = None \<and>
   fst (main default_args environment_query_fails) = Returned \<and>
   connection_open (snd (main default_args environment_query_fails)) \<and>
   error_log (snd (main default_args environment_query_fails)) =
     [(''Failed to fetch data from the database: '', Some DatabaseError),
      (''Error analyzing configurations: '', Some DatabaseError)]"
proof -
  have scripts: "analyze_scripts_config s (alenza_scripts environment_ok) [] = Inr ([(''A'', ''2'')], 0)" for s
    by (simp add: environment_ok_def analyze_scripts_config_def file_is_added_def contains_def
          sublist_code CLIENT_SPECIFIC_DIRECTORY_def startswith_def parse_example takes_key_def
          has_key_def keys_def)
  have none: "analyze_scripts_config s (aicon_scripts environment_ok) [] = Inr ([], 0)" for s
    by (simp add: environment_ok_def analyze_scripts_config_def)
  have original: "fst (main_original default_args environment_ok) = Returned \<and>
      connection_open (snd (main_original default_args environment_ok))"
    using scripts none
    by (simp add: main_original_def connect_original_def analyze_database_config_eval
          environment_ok_def merge_dicts_def compare_database_to_scripts_original_def
          generate_missing_stored_proc_statement_def notify_warnings_def)
  have refactored: "main default_args environment_query_fails =
      (Returned,
       (new_object default_args)\<lparr>connection_open := True,
          error_log := [(''Failed to fetch data from the database: '', Some DatabaseError),
                        (''Error analyzing configurations: '', Some DatabaseError)]\<rparr>)"
    by (simp add: main_def connect_def analyze_configurations_def analyze_database_config_def
          fetch_data_from_db_def environment_query_fails_def environment_ok_def logger_error_def
          new_object_def default_args_def)
  show ?thesis
    using original refactored by (simp add: environment_ok_def environment_query_fails_def)
qed


end
